theory Spec2Isabelle
  imports Complex_Main "HOL-Library.Word" "HOL-Library.Multiset" "HOL-Library.Sublist"
    "HOL-Library.AList"
begin

section \<open>Data model of main.go\<close>

text \<open>
  Go's \<open>int\<close> is a 64-bit two's complement integer: card counts are \<open>64 word\<close>, read
  with \<open>sint\<close>. A \<open>float64\<close> is modelled by an exact rational: the theorems below are about
  the order, the selection and the weights of the scorer, not about rounding in the last
  binary digit. A Go \<open>error\<close> is \<open>None\<close> for \<open>nil\<close> and \<open>Some msg\<close> otherwise; a panic
  (\<open>checkError\<close>, an index out of range) is the constructor \<open>Panic\<close> of \<open>outcome\<close>.
\<close>

type_synonym go_int = "64 word"
type_synonym float64 = rat
type_synonym error = "string option"

datatype 'a outcome = Ret 'a | Panic string

record ScryfallCard =
  Name :: string
  ManaCost :: string
  Cmc :: float64
  TypeLine :: string
  ColorIdentity :: "string list"
  SetCode :: string
  Rarity :: string
  PricesUsd :: string

record DeckSlot =
  amount :: go_int
  cardName :: string
  slotCard :: "ScryfallCard option"

datatype CardStrength = CardStrength (csCardName: string) (strength: float64)

text \<open>One element of \<open>SealedDeck.Deck\<close> or \<open>SealedDeck.Sideboard\<close>.\<close>

record SealedEntry =
  entryName :: string
  Count :: go_int

record SealedDeck =
  PoolID :: string
  Sideboard :: "SealedEntry list"
  Deck :: "SealedEntry list"

text \<open>One element of \<open>CardPerformance\<close>, with the fields the program reads.\<close>

record CardPerformanceEntry =
  EverDrawnGameCount :: int
  EverDrawnWinRate :: float64
  perfName :: string
  perfRarity :: string

section \<open>Constants\<close>

definition scryfallPauseMs :: nat where "scryfallPauseMs = 75"
definition seventeenLandsPauseMs :: nat where "seventeenLandsPauseMs = 1000"
definition seventeenLandsDrawnThreshold :: int where "seventeenLandsDrawnThreshold = 100"
definition webRetires :: nat where "webRetires = 3"
definition webRetryMs :: nat where "webRetryMs = 500"
definition deckStrengthCardsToConsider :: nat where "deckStrengthCardsToConsider = 60"

definition mtg2CDecks :: "string list" where
  "mtg2CDecks = [''WU'', ''WB'', ''WR'', ''WG'', ''UB'', ''UR'', ''UG'', ''BR'', ''BG'', ''RG'']"

definition mtg3CDecks :: "string list" where
  "mtg3CDecks = [''WUB'', ''WUR'', ''WUG'', ''BRW'', ''GWB'', ''WRG'', ''UBR'', ''UBG'', ''RGU'', ''BRG'']"

definition seventeenLands3CSets :: "string list" where
  "seventeenLands3CSets = [''SNC'']"

text \<open>The package variable \<open>currentSet\<close>; the functions that read it take it as \<open>cur\<close>.\<close>

definition currentSet :: string where "currentSet = ''HBG''"

section \<open>Formatting and string helpers of the Go library\<close>

text \<open>\<open>%d\<close> of \<open>fmt.Sprintf\<close>: the decimal digits, with a minus sign below zero.\<close>

fun fmt_nat :: "nat \<Rightarrow> string" where
  "fmt_nat n =
     (if n < 10 then [''0123456789'' ! n]
      else fmt_nat (n div 10) @ [''0123456789'' ! (n mod 10)])"

declare fmt_nat.simps [simp del]

definition fmt_d :: "int \<Rightarrow> string" where
  "fmt_d i = (if i < 0 then CHR ''-'' # fmt_nat (nat (- i)) else fmt_nat (nat i))"

text \<open>
  \<open>strings.Trim(s, cutset)\<close> removes every leading and every trailing character of \<open>s\<close>
  that occurs in \<open>cutset\<close>. The cutset used by the program is ASCII, so bytes and code
  points agree.
\<close>

definition strings_Trim :: "string \<Rightarrow> string \<Rightarrow> string" where
  "strings_Trim s cutset =
     rev (dropWhile (\<lambda>c. c \<in> set cutset) (rev (dropWhile (\<lambda>c. c \<in> set cutset) s)))"

definition strings_HasPrefix :: "string \<Rightarrow> string \<Rightarrow> bool" where
  "strings_HasPrefix s p = prefix p s"

section \<open>Resilient Fetcher\<close>

text \<open>
  The outside world of the resolvers. An HTTP request either fails in transport
  (\<open>http.Get\<close> returns an error) or returns a status code and a body, whose reading by
  \<open>ioutil.ReadAll\<close> may fail in turn. The \<open>world\<close> is the state the resolvers thread: the
  durable store, and the traces of what they did (the URIs requested with \<open>http.Get\<close>,
  the pauses taken with \<open>time.Sleep\<close> in milliseconds, the successful \<open>dbSet\<close> calls).
  The \<open>env\<close> holds what the program does not decide: the answer of the network to the
  k-th request of the run, whether a store write fails, the library functions
  \<open>url.QueryEscape\<close>, \<open>strings.TrimSpace\<close> and \<open>json.Unmarshal\<close>, the calendar date of
  \<open>time.Now()\<close> as (year, month, day), and the package variable \<open>currentSet\<close>.
\<close>

datatype body = Body string | ReadError string

datatype response = TransportFailure string | Response int body

record world =
  db :: "string \<rightharpoonup> string"
  requests :: "string list"
  sleeps :: "nat list"
  dbWrites :: "(string \<times> string) list"

record env =
  httpGet :: "nat \<Rightarrow> string \<Rightarrow> response"
  dbSetError :: "string \<Rightarrow> string \<Rightarrow> error"
  queryEscape :: "string \<Rightarrow> string"
  trimSpace :: "string \<Rightarrow> string"
  parseCard :: "string \<Rightarrow> ScryfallCard"
  parsePerf :: "string \<Rightarrow> CardPerformanceEntry list"
  today :: "int \<times> int \<times> int"
  curSet :: string

definition sleep :: "nat \<Rightarrow> world \<Rightarrow> world" where
  "sleep ms w = w\<lparr>sleeps := sleeps w @ [ms]\<rparr>"

text \<open>
  \<open>dbGet\<close> fails exactly when the key is not in the store; \<open>dbSet\<close> returns the store's
  error, if any, and otherwise writes the value.
\<close>

definition dbGet :: "world \<Rightarrow> string \<Rightarrow> string \<times> error" where
  "dbGet w key = (case db w key of None \<Rightarrow> ('''', Some ''Key not found'') | Some v \<Rightarrow> (v, None))"

definition dbSet :: "env \<Rightarrow> string \<Rightarrow> string \<Rightarrow> world \<Rightarrow> error \<times> world" where
  "dbSet e key v w =
     (case dbSetError e key v of
        Some m \<Rightarrow> (Some m, w)
      | None \<Rightarrow> (None, w\<lparr>db := (db w)(key \<mapsto> v), dbWrites := dbWrites w @ [(key, v)]\<rparr>))"

definition statusError :: "int \<Rightarrow> string \<Rightarrow> string" where
  "statusError statusCode u =
     ''An error with code '' @ fmt_d statusCode
       @ '' was throw trying to get a response from: '' @ u"

text \<open>
  \<open>innerGetWebResponseString\<close>: \<open>checkError\<close> panics on a transport failure and on a
  failed read of the body; a status other than 200 is returned as an error.
\<close>

definition innerGetWebResponseString ::
  "env \<Rightarrow> string \<Rightarrow> world \<Rightarrow> (string \<times> error) outcome \<times> world" where
  "innerGetWebResponseString e u w =
     (let w' = w\<lparr>requests := requests w @ [u]\<rparr>
      in case httpGet e (length (requests w)) u of
           TransportFailure m \<Rightarrow> (Panic m, w')
         | Response statusCode b \<Rightarrow>
             if statusCode \<noteq> 200 then (Ret ('''', Some (statusError statusCode u)), w')
             else (case b of
                     ReadError m \<Rightarrow> (Panic m, w')
                   | Body s \<Rightarrow> (Ret (s, None), w')))"

text \<open>
  \<open>getWebResponseString\<close>: the loop \<open>for i := 0; i < webRetires; i++\<close>, with \<open>err\<close> the
  error of the previous attempt.
\<close>

function getWebResponseString_from ::
  "env \<Rightarrow> string \<Rightarrow> nat \<Rightarrow> error \<Rightarrow> world \<Rightarrow> (string \<times> error) outcome \<times> world" where
  "getWebResponseString_from e u i err w =
     (if i < webRetires then
        (case innerGetWebResponseString e u w of
           (Panic m, w') \<Rightarrow> (Panic m, w')
         | (Ret (r, err'), w') \<Rightarrow>
             if err' = None then (Ret (r, err'), w')
             else getWebResponseString_from e u (i + 1) err' (sleep webRetryMs w'))
      else (Ret ('''', err), w))"
  by pat_completeness auto
termination
  by (relation "measure (\<lambda>(e, u, i, err, w). webRetires - i)") auto

declare getWebResponseString_from.simps [simp del]

definition getWebResponseString ::
  "env \<Rightarrow> string \<Rightarrow> world \<Rightarrow> (string \<times> error) outcome \<times> world" where
  "getWebResponseString e u w = getWebResponseString_from e u 0 None w"

section \<open>Pool Resolver: flatten\<close>

text \<open>
  The loop body of \<open>SealedDeck.flatten\<close>: a name already in the map has the count added
  to its slot, a new name gets a slot with the count. The Go map is a partial function.
\<close>

definition flattenStep :: "(string \<rightharpoonup> DeckSlot) \<Rightarrow> SealedEntry \<Rightarrow> (string \<rightharpoonup> DeckSlot)" where
  "flattenStep flattenedCards c =
     (case flattenedCards (entryName c) of
        Some v \<Rightarrow> flattenedCards(entryName c \<mapsto>
          \<lparr>amount = amount v + Count c, cardName = entryName c, slotCard = None\<rparr>)
      | None \<Rightarrow> flattenedCards(entryName c \<mapsto>
          \<lparr>amount = Count c, cardName = entryName c, slotCard = None\<rparr>))"

definition flatten :: "SealedDeck \<Rightarrow> (string \<rightharpoonup> DeckSlot)" where
  "flatten deck = foldl flattenStep Map.empty (Deck deck @ Sideboard deck)"

section \<open>Card Resolver\<close>

text \<open>The first statement of \<open>getCard\<close>: "Remove the Alchemy designation from cards".\<close>

definition normalizeCardName :: "string \<Rightarrow> string" where
  "normalizeCardName name =
     (if strings_HasPrefix name ''A-'' then strings_Trim name ''A-'' else name)"

text \<open>
  \<open>scryfallGet\<close> asks for the card in the current set first and, when that lookup
  returns an error, for the card in any set; it pauses before it returns.
\<close>

definition scryfallCardUri :: "string \<Rightarrow> string" where
  "scryfallCardUri q = ''https://api.scryfall.com/cards/named?exact='' @ q"

definition scryfallSetClause :: "string \<Rightarrow> string" where
  "scryfallSetClause q = ''&set='' @ q"

definition scryfallGet ::
  "env \<Rightarrow> string \<Rightarrow> world \<Rightarrow> (string \<times> error) outcome \<times> world" where
  "scryfallGet e name w =
     (let baseUri = scryfallCardUri (queryEscape e name);
          setUri = baseUri @ scryfallSetClause (queryEscape e (curSet e))
      in case getWebResponseString e setUri w of
           (Panic m, w1) \<Rightarrow> (Panic m, w1)
         | (Ret (rawJson, err), w1) \<Rightarrow>
             (case (if err \<noteq> None then getWebResponseString e baseUri w1
                    else (Ret (rawJson, err), w1)) of
                (Panic m, w2) \<Rightarrow> (Panic m, w2)
              | (Ret (rawJson', err'), w2) \<Rightarrow>
                  (Ret (rawJson', err'), sleep scryfallPauseMs w2)))"

text \<open>The value of \<open>new(ScryfallCard)\<close>.\<close>

definition emptyCard :: ScryfallCard where
  "emptyCard = \<lparr>Name = '''', ManaCost = '''', Cmc = 0, TypeLine = '''', ColorIdentity = [],
     SetCode = '''', Rarity = '''', PricesUsd = ''''\<rparr>"

definition getCard ::
  "env \<Rightarrow> string \<Rightarrow> world \<Rightarrow> (ScryfallCard \<times> error) outcome \<times> world" where
  "getCard e name0 w =
     (let name = normalizeCardName name0
      in case dbGet w name of
           (cardJson, None) \<Rightarrow> (Ret (parseCard e cardJson, None), w)
         | (cardJson, Some dbErr) \<Rightarrow>
             (case scryfallGet e name w of
                (Panic m, w1) \<Rightarrow> (Panic m, w1)
              | (Ret (cardJson', Some err), w1) \<Rightarrow>
                  (Ret (emptyCard,
                        Some (''Could not find card in db or in scryfall: '' @ name)), w1)
              | (Ret (cardJson', None), w1) \<Rightarrow>
                  (case dbSet e name cardJson' w1 of
                     (Some m, w2) \<Rightarrow> (Panic m, w2)
                   | (None, w2) \<Rightarrow> (Ret (parseCard e cardJson', None), w2))))"

section \<open>Performance Resolver\<close>

definition getCardPrevalenceThreshold :: "string \<Rightarrow> int" where
  "getCardPrevalenceThreshold rarity =
     (if rarity = ''uncommon'' then seventeenLandsDrawnThreshold div 2
      else if rarity = ''rare'' then seventeenLandsDrawnThreshold div 4
      else if rarity = ''mythic'' then seventeenLandsDrawnThreshold div 6
      else seventeenLandsDrawnThreshold)"

text \<open>
  The inner loop of \<open>loadCardPerformanceData\<close> ("Extract the GIH_WR"): one assignment to
  \<open>gihByCard\<close> per record of the payload, in the payload's order.
\<close>

definition gihStep :: "(string \<rightharpoonup> float64) \<Rightarrow> CardPerformanceEntry \<Rightarrow> (string \<rightharpoonup> float64)" where
  "gihStep gihByCard cardData =
     (if EverDrawnGameCount cardData > getCardPrevalenceThreshold (perfRarity cardData)
      then gihByCard(perfName cardData \<mapsto> EverDrawnWinRate cardData)
      else gihByCard(perfName cardData \<mapsto> 0))"

definition extractGih :: "CardPerformanceEntry list \<Rightarrow> (string \<rightharpoonup> float64)" where
  "extractGih cp = foldl gihStep Map.empty cp"

text \<open>
  \<open>getCardPerformanceData\<close>. The key of the store is built first (\<open>perfDbKey\<close>): the
  date is part of it only for the current set.
\<close>

definition perfDbKey :: "string \<Rightarrow> int \<times> int \<times> int \<Rightarrow> string \<Rightarrow> string \<Rightarrow> string" where
  "perfDbKey cur now setCode deckId =
     (let dateKey = (if setCode = cur
                     then (case now of (y, mo, d) \<Rightarrow>
                             ''_'' @ fmt_d y @ ''_'' @ fmt_d mo @ ''_'' @ fmt_d d)
                     else '''')
      in ''17lands_'' @ setCode @ ''_'' @ deckId @ dateKey)"

definition seventeenLandsUri :: "string \<Rightarrow> string \<Rightarrow> string \<Rightarrow> string \<Rightarrow> string" where
  "seventeenLandsUri expansion format endDate colors =
     ''https://www.17lands.com/card_ratings/data?expansion='' @ expansion @ ''&format='' @ format
       @ ''&start_date=2019-01-01&end_date='' @ endDate @ ''&colors='' @ colors"

definition setPerformanceFormat :: string where
  "setPerformanceFormat = ''PremierDraft''"

definition seventeenLandsGet ::
  "env \<Rightarrow> string \<Rightarrow> string \<Rightarrow> world \<Rightarrow> (string \<times> error) outcome \<times> world" where
  "seventeenLandsGet e setCode deckId w =
     (let todayString = (case today e of (y, mo, d) \<Rightarrow> fmt_d y @ ''-'' @ fmt_d mo @ ''-'' @ fmt_d d);
          u = seventeenLandsUri setCode setPerformanceFormat todayString deckId
      in case getWebResponseString e u w of
           (Panic m, w1) \<Rightarrow> (Panic m, w1)
         | (Ret (rawJson, err), w1) \<Rightarrow> (Ret (rawJson, err), sleep seventeenLandsPauseMs w1))"

definition getCardPerformanceData ::
  "env \<Rightarrow> string \<Rightarrow> string \<Rightarrow> bool \<Rightarrow> world
     \<Rightarrow> (CardPerformanceEntry list \<times> error) outcome \<times> world" where
  "getCardPerformanceData e setCode deckId forceDataRefresh w =
     (let dbKey = perfDbKey (curSet e) (today e) setCode deckId
      in case dbGet w dbKey of
           (rawJson, err) \<Rightarrow>
             if err \<noteq> None \<or> trimSpace e rawJson = '''' \<or> forceDataRefresh then
               (case seventeenLandsGet e setCode deckId w of
                  (Panic m, w1) \<Rightarrow> (Panic m, w1)
                | (Ret (rawJson', Some err'), w1) \<Rightarrow>
                    (Ret ([], Some (''Could not find card perf data in db or on 17lands.com: ''
                                      @ deckId)), w1)
                | (Ret (rawJson', None), w1) \<Rightarrow>
                    (case dbSet e dbKey rawJson' w1 of
                       (Some m, w2) \<Rightarrow> (Panic m, w2)
                     | (None, w2) \<Rightarrow> (Ret (parsePerf e rawJson', None), w2)))
             else (Ret (parsePerf e rawJson, None), w))"

section \<open>Strength Scorer\<close>

text \<open>
  \<open>calculateStrength\<close>, from the inside out. \<open>appendCopies\<close> is the loop
  \<open>for i := 0; i < c.amount; i++\<close> that appends one \<open>CardStrength\<close> per copy, with the
  result \<open>lk\<close> of the lookup \<open>strengthMap[c.cardName]\<close>; \<open>expandPool\<close> is the loop over
  \<open>pool.cards\<close> around it. \<open>sortByStrength\<close> is the \<open>sort.Slice\<close> with the comparison
  \<open>cardStrengths[i].strength > cardStrengths[j].strength\<close>; Go does not say how it orders
  entries of equal strength, the model takes the insertion sort of the library, and the
  sum taken afterwards is the same for every descending order (shown below). \<open>sumTop\<close>
  is the sum over \<open>cardStrengths[0:maxIndex]\<close>. A missing entry of \<open>cardStrengthByDeck\<close>
  is a nil map, in which every lookup fails (\<open>strengthMapOf\<close>).
\<close>

record PlayerPool =
  player :: string
  poolRecord :: string
  uri :: string
  isAlive :: bool
  team :: string
  cards :: "DeckSlot list"
  facts :: "string \<rightharpoonup> int"

definition getDecks :: "string \<Rightarrow> string list" where
  "getDecks setCode =
     (let mtgDecks = [] @ mtg2CDecks
      in if setCode \<in> set seventeenLands3CSets then mtgDecks @ mtg3CDecks else mtgDecks)"

function appendCopies :: "int \<Rightarrow> DeckSlot \<Rightarrow> float64 option \<Rightarrow> CardStrength list \<Rightarrow> CardStrength list" where
  "appendCopies i c lk cardStrengths =
     (if i < sint (amount c) then
        appendCopies (i + 1) c lk
          (case lk of
             Some s \<Rightarrow> cardStrengths @ [CardStrength (cardName c) s]
           | None \<Rightarrow> cardStrengths @ [CardStrength (cardName c) 0])
      else cardStrengths)"
  by pat_completeness auto
termination
  by (relation "measure (\<lambda>(i, c, lk, cardStrengths). nat (sint (amount c) - i))") auto

declare appendCopies.simps [simp del]

definition expandPool :: "(string \<rightharpoonup> float64) \<Rightarrow> DeckSlot list \<Rightarrow> CardStrength list" where
  "expandPool strengthMap cs =
     foldl (\<lambda>cardStrengths c. appendCopies 0 c (strengthMap (cardName c)) cardStrengths) [] cs"

definition sortByStrength :: "CardStrength list \<Rightarrow> CardStrength list" where
  "sortByStrength cardStrengths = sort_key (\<lambda>cs. - strength cs) cardStrengths"

definition sumTop :: "CardStrength list \<Rightarrow> float64" where
  "sumTop cardStrengths =
     (let maxIndex = (if length cardStrengths < deckStrengthCardsToConsider
                      then length cardStrengths else deckStrengthCardsToConsider)
      in foldl (\<lambda>deckStrength cs. deckStrength + strength cs) 0 (take maxIndex cardStrengths))"

definition strengthMapOf :: "(string \<rightharpoonup> (string \<rightharpoonup> float64)) \<Rightarrow> string \<Rightarrow> (string \<rightharpoonup> float64)" where
  "strengthMapOf cardStrengthByDeck deckId =
     (case cardStrengthByDeck deckId of None \<Rightarrow> Map.empty | Some m \<Rightarrow> m)"

definition deckStrength :: "(string \<rightharpoonup> float64) \<Rightarrow> DeckSlot list \<Rightarrow> float64" where
  "deckStrength strengthMap cs = sumTop (sortByStrength (expandPool strengthMap cs))"

text \<open>
  The map \<open>deckStrengths\<close> is an association list with one pair per key
  (\<open>AList.update\<close> overwrites the value of a key that is present). \<open>topDecks\<close> is the
  slice \<open>v\<close> at the time it is read: \<open>make([]float64, len(deckStrengths))\<close> gives that many
  zeros, the values of the map are appended, and \<open>sort.Slice\<close> orders the whole
  descending; the order in which \<open>range\<close> visits the map does not matter to the sorted
  slice. \<open>index\<close> is a slice read with Go's bounds check, and \<open>truncToInt\<close> the conversion
  \<open>int(strength)\<close>, which drops the fraction.
\<close>

definition deckStrengthsOf ::
  "string \<Rightarrow> PlayerPool \<Rightarrow> (string \<rightharpoonup> (string \<rightharpoonup> float64)) \<Rightarrow> (string \<times> float64) list" where
  "deckStrengthsOf cur pool cardStrengthByDeck =
     foldl (\<lambda>deckStrengths deckId.
              AList.update deckId
                (deckStrength (strengthMapOf cardStrengthByDeck deckId) (cards pool))
                deckStrengths)
       [] (getDecks cur)"

definition index :: "'a list \<Rightarrow> nat \<Rightarrow> 'a outcome" where
  "index xs i = (if i < length xs then Ret (xs ! i) else Panic ''index out of range'')"

definition truncToInt :: "float64 \<Rightarrow> int" where
  "truncToInt x = (if 0 \<le> x then \<lfloor>x\<rfloor> else \<lceil>x\<rceil>)"

definition topDecks :: "(string \<times> float64) list \<Rightarrow> float64 list" where
  "topDecks deckStrengths =
     sort_key uminus (replicate (length deckStrengths) 0 @ map snd deckStrengths)"

definition calculateStrength ::
  "string \<Rightarrow> PlayerPool \<Rightarrow> (string \<rightharpoonup> (string \<rightharpoonup> float64)) \<Rightarrow> int outcome" where
  "calculateStrength cur pool cardStrengthByDeck =
     (let v = topDecks (deckStrengthsOf cur pool cardStrengthByDeck)
      in case index v 0 of
           Panic e \<Rightarrow> Panic e
         | Ret v0 \<Rightarrow>
             (case index v 1 of
                Panic e \<Rightarrow> Panic e
              | Ret v1 \<Rightarrow>
                  (case index v 2 of
                     Panic e \<Rightarrow> Panic e
                   | Ret v2 \<Rightarrow> Ret (truncToInt ((v0 + (v1 * (8 / 10)) + (v2 * (4 / 10))) * 100)))))"

section \<open>The scorer in the words of the specification\<close>

text \<open>
  The raw strength of an archetype as the specification describes it: expand every slot
  into \<open>amount\<close> entries carrying the archetype's win rate for the card name, 0 when the
  name is not in the map; sort the entries descending; sum the first
  min(60, number of entries). \<open>poolCopies\<close> lists the physical copies of a pool by name, and
  \<open>specFinalStrength\<close> is the final score with rounding to the nearest integer, as the
  specification states it.
\<close>

definition specEntries :: "(string \<rightharpoonup> float64) \<Rightarrow> DeckSlot list \<Rightarrow> float64 list" where
  "specEntries strengthMap cs =
     concat (map (\<lambda>c. replicate (nat (sint (amount c)))
                          (case strengthMap (cardName c) of Some s \<Rightarrow> s | None \<Rightarrow> 0)) cs)"


definition poolCopies :: "DeckSlot list \<Rightarrow> string list" where
  "poolCopies cs = concat (map (\<lambda>c. replicate (nat (sint (amount c))) (cardName c)) cs)"

definition winRateOr0 :: "(string \<rightharpoonup> float64) \<Rightarrow> string \<Rightarrow> float64" where
  "winRateOr0 strengthMap n = (case strengthMap n of Some s \<Rightarrow> s | None \<Rightarrow> 0)"



text \<open>
  Names used in the statements about the resolvers: a response with a status other than
  200, a lookup that returned an error to its caller, and the two URIs of \<open>scryfallGet\<close>.
\<close>

definition nonSuccess :: "response \<Rightarrow> bool" where
  "nonSuccess r = (case r of Response statusCode b \<Rightarrow> statusCode \<noteq> 200 | TransportFailure m \<Rightarrow> False)"

definition isError :: "(string \<times> error) outcome \<Rightarrow> bool" where
  "isError res = (case res of Ret (r, Some m) \<Rightarrow> True | Ret (r, None) \<Rightarrow> False | Panic m \<Rightarrow> False)"

definition cardBaseUri :: "env \<Rightarrow> string \<Rightarrow> string" where
  "cardBaseUri e name = scryfallCardUri (queryEscape e name)"

definition cardSetUri :: "env \<Rightarrow> string \<Rightarrow> string" where
  "cardSetUri e name = cardBaseUri e name @ scryfallSetClause (queryEscape e (curSet e))"

section \<open>Example inputs\<close>

text \<open>
  A pool with one \<open>Opt\<close> and two \<open>Shock\<close>, and performance data in which only the
  archetype \<open>WU\<close> knows \<open>Opt\<close>, with a win rate of 0.6875.
\<close>

definition examplePool :: PlayerPool where
  "examplePool = \<lparr>player = ''p'', poolRecord = ''0 | 0'', uri = ''u'', isAlive = True, team = '''',
     cards = [\<lparr>amount = 1, cardName = ''Opt'', slotCard = None\<rparr>,
              \<lparr>amount = 2, cardName = ''Shock'', slotCard = None\<rparr>], facts = Map.empty\<rparr>"

definition exampleMaps :: "string \<rightharpoonup> (string \<rightharpoonup> float64)" where
  "exampleMaps = [''WU'' \<mapsto> [''Opt'' \<mapsto> 11 / 16]]"

text \<open>
  An environment whose store accepts every write and whose parsers keep the payload in
  the card's name, an empty world, and four networks: one that is down, one that answers
  503 once and then 200, one that always answers 503, and one that knows the card
  \<open>Opt\<close> only without a set filter.
\<close>

definition exampleEnv :: "(nat \<Rightarrow> string \<Rightarrow> response) \<Rightarrow> env" where
  "exampleEnv net =
     \<lparr>httpGet = net, dbSetError = (\<lambda>key v. None), queryEscape = (\<lambda>s. s),
      trimSpace = filter (\<lambda>c. c \<noteq> CHR '' ''), parseCard = (\<lambda>j. emptyCard\<lparr>Name := j\<rparr>),
      parsePerf = (\<lambda>j. []), today = (2022, 7, 9), curSet = currentSet\<rparr>"

definition emptyWorld :: world where
  "emptyWorld = \<lparr>db = Map.empty, requests = [], sleeps = [], dbWrites = []\<rparr>"

definition netDown :: "nat \<Rightarrow> string \<Rightarrow> response" where
  "netDown k u = TransportFailure ''dial tcp: i/o timeout''"

definition netBusyOnce :: "nat \<Rightarrow> string \<Rightarrow> response" where
  "netBusyOnce k u = (if k < 1 then Response 503 (Body '''') else Response 200 (Body ''{}''))"

definition netBusy :: "nat \<Rightarrow> string \<Rightarrow> response" where
  "netBusy k u = Response 503 (Body '''')"

definition netUnscopedOnly :: "nat \<Rightarrow> string \<Rightarrow> response" where
  "netUnscopedOnly k u =
     (if u = ''https://api.scryfall.com/cards/named?exact=Opt''
      then Response 200 (Body ''{}'') else Response 404 (Body ''''))"

section \<open>Flattening a pool\<close>

lemma flattenStep_lookup:
  "flattenStep m c n =
     (if entryName c = n
      then Some \<lparr>amount = (case m n of None \<Rightarrow> 0 | Some v \<Rightarrow> amount v) + Count c,
                 cardName = n, slotCard = None\<rparr>
      else m n)"
  by (cases "m (entryName c)") (auto simp add: flattenStep_def)

lemma foldl_flattenStep:
  "foldl flattenStep m xs n =
     (if filter (\<lambda>c. entryName c = n) xs = [] then m n
      else Some \<lparr>amount = (case m n of None \<Rightarrow> 0 | Some v \<Rightarrow> amount v)
                            + sum_list (map Count (filter (\<lambda>c. entryName c = n) xs)),
                 cardName = n, slotCard = None\<rparr>)"
proof (induction xs arbitrary: m)
  case Nil
  then show ?case by simp
next
  case (Cons c xs)
  have step: "foldl flattenStep m (c # xs) n = foldl flattenStep (flattenStep m c) xs n"
    by simp
  show ?case
    unfolding step Cons.IH [of "flattenStep m c"] flattenStep_lookup [of m c n]
    by (simp add: add.assoc)
qed

lemma flatten_lookup:
  "flatten deck n =
     (if filter (\<lambda>c. entryName c = n) (Deck deck @ Sideboard deck) = [] then None
      else Some \<lparr>amount = sum_list (map Count
                     (filter (\<lambda>c. entryName c = n) (Deck deck @ Sideboard deck))),
                 cardName = n, slotCard = None\<rparr>)"
  unfolding flatten_def foldl_flattenStep by simp

lemma perm_filter_sum:
  fixes f :: "'a \<Rightarrow> 'b::comm_monoid_add"
  assumes "mset xs = mset ys"
  shows "(filter P xs = []) = (filter P ys = []) \<and>
    sum_list (map f (filter P xs)) = sum_list (map f (filter P ys))"
proof (intro conjI)
  have m: "mset (filter P xs) = mset (filter P ys)"
    using assms by simp
  show "(filter P xs = []) = (filter P ys = [])"
    using m by (metis mset_zero_iff)
  have "mset (map f (filter P xs)) = mset (map f (filter P ys))"
    using m by (metis mset_map)
  then have "sum_mset (mset (map f (filter P xs))) = sum_mset (mset (map f (filter P ys)))"
    by (rule arg_cong)
  then show "sum_list (map f (filter P xs)) = sum_list (map f (filter P ys))"
    unfolding sum_mset_sum_list .
qed

lemma flatten_perm:
  assumes "mset (Deck d @ Sideboard d) = mset (Deck d' @ Sideboard d')"
  shows "flatten d = flatten d'"
proof
  fix n
  show "flatten d n = flatten d' n"
    unfolding flatten_lookup
    using perm_filter_sum [OF assms, where P = "\<lambda>c. entryName c = n" and f = Count]
    by presburger
qed

text \<open>
  C8. The flattened pool is a map, so it has at most one slot per card name. A name has a
  slot exactly when it occurs in the deck or the sideboard, and the slot's amount is the
  sum (in Go's 64-bit \<open>int\<close>) of the counts of all its occurrences. Two payloads whose
  entries are the same up to order flatten to the same map.
\<close>

theorem flatten_sums_counts_in_any_order:
  "flatten deck n =
     (if filter (\<lambda>c. entryName c = n) (Deck deck @ Sideboard deck) = [] then None
      else Some \<lparr>amount = sum_list (map Count
                     (filter (\<lambda>c. entryName c = n) (Deck deck @ Sideboard deck))),
                 cardName = n, slotCard = None\<rparr>)
   \<and> (\<forall>deck'. mset (Deck deck' @ Sideboard deck') = mset (Deck deck @ Sideboard deck)
          \<longrightarrow> flatten deck' = flatten deck)"
  using flatten_lookup [of deck n] flatten_perm by blast

text \<open>
  The example of the specification: \<open>[{A,2},{B,1},{A,3}]\<close> gives \<open>{A:5, B:1}\<close>, and so
  does the same payload with its entries in another order and split differently between
  deck and sideboard.
\<close>

theorem flatten_sums_counts_in_any_order_witness:
  "flatten \<lparr>PoolID = ''p'', Sideboard = [],
       Deck = [\<lparr>entryName = ''A'', Count = 2\<rparr>, \<lparr>entryName = ''B'', Count = 1\<rparr>,
               \<lparr>entryName = ''A'', Count = 3\<rparr>]\<rparr> ''A''
     = Some \<lparr>amount = 5, cardName = ''A'', slotCard = None\<rparr>
   \<and> flatten \<lparr>PoolID = ''p'', Sideboard = [],
       Deck = [\<lparr>entryName = ''A'', Count = 2\<rparr>, \<lparr>entryName = ''B'', Count = 1\<rparr>,
               \<lparr>entryName = ''A'', Count = 3\<rparr>]\<rparr> ''B''
     = Some \<lparr>amount = 1, cardName = ''B'', slotCard = None\<rparr>
   \<and> flatten \<lparr>PoolID = ''p'', Sideboard = [],
       Deck = [\<lparr>entryName = ''A'', Count = 2\<rparr>, \<lparr>entryName = ''B'', Count = 1\<rparr>,
               \<lparr>entryName = ''A'', Count = 3\<rparr>]\<rparr> ''C'' = None
   \<and> flatten \<lparr>PoolID = ''q'', Sideboard = [\<lparr>entryName = ''A'', Count = 3\<rparr>,
                                             \<lparr>entryName = ''A'', Count = 2\<rparr>],
       Deck = [\<lparr>entryName = ''B'', Count = 1\<rparr>]\<rparr>
     = flatten \<lparr>PoolID = ''p'', Sideboard = [],
       Deck = [\<lparr>entryName = ''A'', Count = 2\<rparr>, \<lparr>entryName = ''B'', Count = 1\<rparr>,
               \<lparr>entryName = ''A'', Count = 3\<rparr>]\<rparr>"
proof -
  let ?d = "\<lparr>PoolID = ''p'', Sideboard = [],
       Deck = [\<lparr>entryName = ''A'', Count = 2\<rparr>, \<lparr>entryName = ''B'', Count = 1\<rparr>,
               \<lparr>entryName = ''A'', Count = 3\<rparr>]\<rparr>"
  let ?d' = "\<lparr>PoolID = ''q'', Sideboard = [\<lparr>entryName = ''A'', Count = 3\<rparr>,
                                             \<lparr>entryName = ''A'', Count = 2\<rparr>],
       Deck = [\<lparr>entryName = ''B'', Count = 1\<rparr>]\<rparr>"
  have a: "flatten ?d ''A'' = Some \<lparr>amount = 5, cardName = ''A'', slotCard = None\<rparr>"
    using flatten_sums_counts_in_any_order [of ?d "''A''", THEN conjunct1] by simp
  have b: "flatten ?d ''B'' = Some \<lparr>amount = 1, cardName = ''B'', slotCard = None\<rparr>"
    using flatten_sums_counts_in_any_order [of ?d "''B''", THEN conjunct1] by simp
  have c: "flatten ?d ''C'' = None"
    using flatten_sums_counts_in_any_order [of ?d "''C''", THEN conjunct1] by simp
  have p: "mset (Deck ?d' @ Sideboard ?d') = mset (Deck ?d @ Sideboard ?d)"
    by simp
  have e: "flatten ?d' = flatten ?d"
    by (rule flatten_sums_counts_in_any_order [of ?d "''A''", THEN conjunct2, THEN spec,
          THEN mp, OF p])
  show ?thesis
    by (intro conjI a b c e)
qed

section \<open>Name normalisation\<close>

text \<open>
  C5. \<open>getCard\<close> removes the Alchemy marker with \<open>strings.Trim(cardName, "A-")\<close>, which
  strips every leading and trailing \<open>A\<close> and \<open>-\<close>, not the two-character prefix. The
  rebalanced card \<open>A-Acererak the Archlich\<close> is looked up under the key
  \<open>cererak the Archlich\<close>, while its unprefixed form keeps the key
  \<open>Acererak the Archlich\<close>: the two forms do not share a cache entry.
\<close>

theorem normalizeCardName_strips_more_than_prefix:
  "normalizeCardName ''A-Acererak the Archlich'' = ''cererak the Archlich''
   \<and> normalizeCardName ''Acererak the Archlich'' = ''Acererak the Archlich''
   \<and> normalizeCardName (''A-'' @ ''Acererak the Archlich'')
       \<noteq> normalizeCardName ''Acererak the Archlich''"
  by (simp add: normalizeCardName_def strings_HasPrefix_def strings_Trim_def)

section \<open>Prevalence filter\<close>

lemma foldl_gihStep_notin:
  "n \<notin> perfName ` set post \<Longrightarrow> foldl gihStep m post n = m n"
  by (induction post arbitrary: m) (auto simp: gihStep_def)

lemma extractGih_last:
  "perfName cd \<notin> perfName ` set post \<Longrightarrow>
   extractGih (pre @ cd # post) (perfName cd) =
     Some (if EverDrawnGameCount cd > getCardPrevalenceThreshold (perfRarity cd)
           then EverDrawnWinRate cd else 0)"
  by (simp add: extractGih_def foldl_gihStep_notin gihStep_def)

text \<open>
  C7, as stated: the recorded win rate equals the observed one if and only if the count
  is above the threshold. A record that is suppressed and whose observed win rate is 0
  (a card never drawn) is recorded as 0, which is its observed rate, although its count is
  not above the threshold.
\<close>

theorem prevalence_iff_counterexample:
  "(extractGih [\<lparr>EverDrawnGameCount = 0, EverDrawnWinRate = 0, perfName = ''Opt'',
                  perfRarity = ''common''\<rparr>] ''Opt''
      = Some (EverDrawnWinRate \<lparr>EverDrawnGameCount = 0, EverDrawnWinRate = 0,
                perfName = ''Opt'', perfRarity = ''common''\<rparr>))
   \<noteq> (EverDrawnGameCount \<lparr>EverDrawnGameCount = 0, EverDrawnWinRate = 0,
          perfName = ''Opt'', perfRarity = ''common''\<rparr>
        > getCardPrevalenceThreshold ''common'')"
  by (simp add: extractGih_def gihStep_def getCardPrevalenceThreshold_def
      seventeenLandsDrawnThreshold_def)

text \<open>
  C7, amended. For a record of the payload that no later record of the same name
  overwrites, the recorded win rate is the observed ever-drawn win rate when the
  ever-drawn count is strictly above the rarity threshold, and 0 otherwise; so the
  equivalence of the claim holds for every record whose observed win rate is not 0, and a
  count equal to the threshold records 0. The thresholds are B, B/2, B/4 and B/6 for
  common, uncommon, rare and mythic, with B = 100 (Go's division truncates, as \<open>div\<close>
  does on these non-negative numbers).
\<close>

theorem prevalence_filter:
  assumes "perfName cd \<notin> perfName ` set post"
  shows "extractGih (pre @ cd # post) (perfName cd) =
           Some (if EverDrawnGameCount cd > getCardPrevalenceThreshold (perfRarity cd)
                 then EverDrawnWinRate cd else 0)
    \<and> (EverDrawnWinRate cd \<noteq> 0 \<longrightarrow>
         (extractGih (pre @ cd # post) (perfName cd) = Some (EverDrawnWinRate cd))
           = (EverDrawnGameCount cd > getCardPrevalenceThreshold (perfRarity cd)))
    \<and> (EverDrawnGameCount cd = getCardPrevalenceThreshold (perfRarity cd) \<longrightarrow>
         extractGih (pre @ cd # post) (perfName cd) = Some 0)
    \<and> getCardPrevalenceThreshold ''common'' = seventeenLandsDrawnThreshold
    \<and> getCardPrevalenceThreshold ''uncommon'' = seventeenLandsDrawnThreshold div 2
    \<and> getCardPrevalenceThreshold ''rare'' = seventeenLandsDrawnThreshold div 4
    \<and> getCardPrevalenceThreshold ''mythic'' = seventeenLandsDrawnThreshold div 6
    \<and> seventeenLandsDrawnThreshold = 100"
  unfolding extractGih_last [OF assms]
  by (simp add: getCardPrevalenceThreshold_def seventeenLandsDrawnThreshold_def)

text \<open>
  A mythic drawn in exactly 16 games (100 div 6) is suppressed; drawn in 17 games, it is
  recorded with its observed win rate.
\<close>

theorem prevalence_filter_witness:
  "extractGih [\<lparr>EverDrawnGameCount = 16, EverDrawnWinRate = 3 / 5, perfName = ''Opt'',
                 perfRarity = ''mythic''\<rparr>,
               \<lparr>EverDrawnGameCount = 500, EverDrawnWinRate = 1 / 2, perfName = ''Shock'',
                 perfRarity = ''common''\<rparr>] ''Opt'' = Some 0
   \<and> extractGih [\<lparr>EverDrawnGameCount = 17, EverDrawnWinRate = 3 / 5, perfName = ''Opt'',
                 perfRarity = ''mythic''\<rparr>,
               \<lparr>EverDrawnGameCount = 500, EverDrawnWinRate = 1 / 2, perfName = ''Shock'',
                 perfRarity = ''common''\<rparr>] ''Opt'' = Some (3 / 5)"
proof -
  let ?lo = "\<lparr>EverDrawnGameCount = 16, EverDrawnWinRate = 3 / 5, perfName = ''Opt'',
                 perfRarity = ''mythic''\<rparr>"
  let ?hi = "\<lparr>EverDrawnGameCount = 17, EverDrawnWinRate = 3 / 5, perfName = ''Opt'',
                 perfRarity = ''mythic''\<rparr>"
  let ?post = "[\<lparr>EverDrawnGameCount = 500, EverDrawnWinRate = 1 / 2, perfName = ''Shock'',
                 perfRarity = ''common''\<rparr>]"
  have lo: "perfName ?lo \<notin> perfName ` set ?post" by simp
  have hi: "perfName ?hi \<notin> perfName ` set ?post" by simp
  have t: "getCardPrevalenceThreshold ''mythic'' = 16"
    by (simp add: getCardPrevalenceThreshold_def seventeenLandsDrawnThreshold_def)
  have a: "extractGih ([] @ ?lo # ?post) (perfName ?lo) = Some 0"
    using prevalence_filter [OF lo, of "[]"] t by simp
  have b: "extractGih ([] @ ?hi # ?post) (perfName ?hi) = Some (3 / 5)"
    using prevalence_filter [OF hi, of "[]"] t by simp
  show ?thesis using a b by simp
qed

section \<open>Properties of the scorer\<close>

lemma appendCopies_replicate:
  "appendCopies i c lk acc =
     acc @ replicate (nat (sint (amount c) - i))
             (CardStrength (cardName c) (case lk of Some s \<Rightarrow> s | None \<Rightarrow> 0))"
proof (induction i c lk acc rule: appendCopies.induct)
  case (1 i c lk cardStrengths)
  show ?case
  proof (cases "i < sint (amount c)")
    case True
    then have n: "nat (sint (amount c) - i) = Suc (nat (sint (amount c) - (i + 1)))"
      by simp
    show ?thesis
      using True 1 [OF True]
      by (subst appendCopies.simps) (simp add: n replicate_append_same split: option.splits)
  next
    case False
    then show ?thesis
      by (subst appendCopies.simps) simp
  qed
qed

lemma foldl_appendCopies:
  "foldl (\<lambda>cardStrengths c. appendCopies 0 c (m (cardName c)) cardStrengths) acc cs =
     acc @ concat (map (\<lambda>c. replicate (nat (sint (amount c)))
                         (CardStrength (cardName c) (case m (cardName c) of Some s \<Rightarrow> s | None \<Rightarrow> 0))) cs)"
  by (induction cs arbitrary: acc) (simp_all add: appendCopies_replicate)

lemma strength_expandPool:
  "map strength (expandPool m cs) = specEntries m cs"
  unfolding expandPool_def foldl_appendCopies specEntries_def
  by (simp add: map_concat comp_def)

lemma map_insort_key:
  "map f (insort_key (\<lambda>x. g (f x)) a xs) = insort_key g (f a) (map f xs)"
  by (induction xs) simp_all

lemma map_sort_key:
  "map f (sort_key (\<lambda>x. g (f x)) xs) = sort_key g (map f xs)"
  by (induction xs) (simp_all add: map_insort_key)

lemma strength_sortByStrength:
  "map strength (sortByStrength xs) = sort_key uminus (map strength xs)"
  unfolding sortByStrength_def
  using map_sort_key [of strength uminus xs] by simp

lemma foldl_add_strength:
  "foldl (\<lambda>deckStrength cs. deckStrength + strength cs) a xs = a + sum_list (map strength xs)"
  by (induction xs arbitrary: a) (simp_all add: add.assoc)

lemma sumTop_sum_list:
  "sumTop xs = sum_list (take deckStrengthCardsToConsider (map strength xs))"
  unfolding sumTop_def Let_def foldl_add_strength
  by (simp add: take_map)

lemma deckStrength_sum_take:
  "deckStrength m cs =
     sum_list (take deckStrengthCardsToConsider (sort_key uminus (specEntries m cs)))"
  unfolding deckStrength_def sumTop_sum_list strength_sortByStrength strength_expandPool ..

lemma sorted_uminus_rev:
  fixes ys :: "rat list"
  shows "sorted ys \<Longrightarrow> sorted (map uminus (rev ys))"
  by (simp add: sorted_wrt_rev rev_map sorted_wrt_map)

lemma sort_key_uminus_rev_sort:
  fixes xs :: "rat list"
  shows "sort_key uminus xs = rev (sort xs)"
proof -
  have a: "sort (map uminus xs) = map uminus (sort_key uminus xs)"
    by (rule properties_for_sort) simp_all
  have b: "sort (map uminus xs) = map uminus (rev (sort xs))"
    by (rule properties_for_sort) (simp_all add: sorted_uminus_rev)
  have "map uminus (sort_key uminus xs) = map uminus (rev (sort xs))"
    using a b by simp
  then show ?thesis
    by simp
qed


lemma update_fresh:
  "k \<notin> fst ` set al \<Longrightarrow> AList.update k v al = al @ [(k, v)]"
  by (induction al) auto

lemma foldl_update_distinct:
  "distinct ks \<Longrightarrow> set ks \<inter> fst ` set al = {} \<Longrightarrow>
   foldl (\<lambda>ds k. AList.update k (f k) ds) al ks = al @ map (\<lambda>k. (k, f k)) ks"
proof (induction ks arbitrary: al)
  case Nil
  then show ?case by simp
next
  case (Cons k ks)
  have fresh: "k \<notin> fst ` set al"
    using Cons.prems(2) by auto
  have d: "distinct ks" and nk: "k \<notin> set ks"
    using Cons.prems(1) by simp_all
  have disj: "set ks \<inter> fst ` set (al @ [(k, f k)]) = {}"
    using Cons.prems(2) nk by auto
  show ?case
    using Cons.IH [OF d disj] by (simp add: update_fresh [OF fresh])
qed

lemma distinct_getDecks: "distinct (getDecks setCode)"
  by (simp add: getDecks_def Let_def mtg2CDecks_def mtg3CDecks_def)

lemma length_getDecks: "10 \<le> length (getDecks setCode)"
  by (simp add: getDecks_def Let_def mtg2CDecks_def mtg3CDecks_def)

lemma deckStrengthsOf_map:
  "deckStrengthsOf cur pool m =
     map (\<lambda>deckId. (deckId, deckStrength (strengthMapOf m deckId) (cards pool))) (getDecks cur)"
  unfolding deckStrengthsOf_def
  using foldl_update_distinct [OF distinct_getDecks, of cur "[]"] by simp

lemma index_Ret: "i < length xs \<Longrightarrow> index xs i = Ret (xs ! i)"
  by (simp add: index_def)

lemma insort_zero_prefix:
  fixes tw :: "rat list"
  shows "\<forall>x\<in>set tw. 0 < x \<Longrightarrow> insort_key uminus 0 (tw @ rest) = tw @ insort_key uminus 0 rest"
  by (induction tw) auto

lemma insort_zero_head:
  fixes rest :: "rat list"
  shows "rest = [] \<or> hd rest \<le> 0 \<Longrightarrow> insort_key uminus 0 rest = 0 # rest"
  by (cases rest) auto

lemma sort_zeros_append:
  fixes vals :: "rat list"
  shows "sort_key uminus (replicate n 0 @ vals) =
           takeWhile (\<lambda>x. 0 < x) (sort_key uminus vals) @ replicate n 0
             @ dropWhile (\<lambda>x. 0 < x) (sort_key uminus vals)"
proof (induction n)
  case 0
  then show ?case by simp
next
  case (Suc n)
  let ?s = "sort_key uminus vals"
  let ?tw = "takeWhile (\<lambda>x. 0 < x) ?s" and ?dw = "dropWhile (\<lambda>x. 0 < x) ?s"
  have pos: "\<forall>x\<in>set ?tw. 0 < x"
    by (auto dest: set_takeWhileD)
  have hd: "replicate n 0 @ ?dw = [] \<or> hd (replicate n 0 @ ?dw) \<le> 0"
  proof (cases n)
    case 0
    show ?thesis
    proof (cases "?dw = []")
      case True
      then show ?thesis using 0 by simp
    next
      case False
      then have "\<not> 0 < hd ?dw"
        using hd_dropWhile by blast
      then show ?thesis using 0 by simp
    qed
  next
    case (Suc k)
    then show ?thesis by simp
  qed
  have "sort_key uminus (replicate (Suc n) 0 @ vals)
          = insort_key uminus 0 (sort_key uminus (replicate n 0 @ vals))"
    by simp
  also have "\<dots> = insort_key uminus 0 (?tw @ (replicate n 0 @ ?dw))"
    using Suc.IH by simp
  also have "\<dots> = ?tw @ insort_key uminus 0 (replicate n 0 @ ?dw)"
    by (rule insort_zero_prefix [OF pos])
  also have "\<dots> = ?tw @ 0 # (replicate n 0 @ ?dw)"
    using insort_zero_head [OF hd] by simp
  finally show ?case by simp
qed

lemma dropWhile_pos_nonpos:
  fixes s :: "rat list"
  shows "sorted (map uminus s) \<Longrightarrow> \<forall>x\<in>set (dropWhile (\<lambda>x. 0 < x) s). x \<le> 0"
  by (induction s) auto

lemma padded_nth:
  fixes s :: "rat list"
  assumes srt: "sorted (map uminus s)" and i: "i < n" "i < length s"
  shows "(takeWhile (\<lambda>x. 0 < x) s @ replicate n 0 @ dropWhile (\<lambda>x. 0 < x) s) ! i
           = max 0 (s ! i)"
proof -
  let ?tw = "takeWhile (\<lambda>x. 0 < x) s" and ?dw = "dropWhile (\<lambda>x. 0 < x) s"
  have s: "s = ?tw @ ?dw" by simp
  show ?thesis
  proof (cases "i < length ?tw")
    case True
    have "s ! i = ?tw ! i"
      using True by (metis s nth_append)
    moreover have "0 < ?tw ! i"
      using True by (metis nth_mem set_takeWhileD)
    ultimately show ?thesis
      using True by (simp add: nth_append)
  next
    case False
    then have j: "i - length ?tw < n" using i by simp
    have "i - length ?tw < length ?dw"
      using False i(2) by (metis s length_append less_diff_conv2 not_less add.commute)
    then have "?dw ! (i - length ?tw) \<le> 0"
      using dropWhile_pos_nonpos [OF srt] nth_mem by blast
    moreover have "s ! i = ?dw ! (i - length ?tw)"
      using False by (metis s nth_append)
    ultimately have "max 0 (s ! i) = 0" by simp
    moreover have "(?tw @ replicate n 0 @ ?dw) ! i = 0"
      using False j by (simp add: nth_append)
    ultimately show ?thesis by simp
  qed
qed

lemma topDecks_nth:
  assumes "i < length ds"
  shows "topDecks ds ! i = max 0 (sort_key uminus (map snd ds) ! i)"
  unfolding topDecks_def sort_zeros_append
  by (rule padded_nth) (use assms in simp_all)

lemma length_topDecks: "length (topDecks ds) = 2 * length ds"
  by (simp add: topDecks_def)

lemma specEntries_poolCopies:
  "specEntries m cs = map (winRateOr0 m) (poolCopies cs)"
  by (induction cs) (simp_all add: specEntries_def poolCopies_def winRateOr0_def)

lemma sort_key_uminus_mset:
  fixes xs ys :: "rat list"
  assumes "mset xs = mset ys"
  shows "sort_key uminus xs = sort_key uminus ys"
proof -
  have "sort xs = sort ys"
    using assms by (metis sorted_list_of_multiset_mset)
  then show ?thesis
    by (simp add: sort_key_uminus_rev_sort)
qed

lemma sum_take_Suc_le:
  fixes zs :: "rat list"
  shows "\<forall>z\<in>set zs. z \<le> x \<Longrightarrow> 0 \<le> x \<Longrightarrow>
         sum_list (take (Suc k) zs) \<le> x + sum_list (take k zs)"
proof (induction zs arbitrary: k)
  case Nil
  then show ?case by simp
next
  case (Cons z zs)
  show ?case
  proof (cases k)
    case 0
    then show ?thesis using Cons.prems by simp
  next
    case (Suc k')
    have "sum_list (take (Suc k') zs) \<le> x + sum_list (take k' zs)"
      using Cons.IH Cons.prems by simp
    then show ?thesis using Suc by simp
  qed
qed

lemma take_insort_mono:
  fixes s :: "rat list"
  shows "sorted (map uminus s) \<Longrightarrow> 0 \<le> x \<Longrightarrow>
         sum_list (take K s) \<le> sum_list (take K (insort_key uminus x s))"
proof (induction s arbitrary: K)
  case Nil
  then show ?case by (cases K) simp_all
next
  case (Cons a s)
  show ?case
  proof (cases K)
    case 0
    then show ?thesis by simp
  next
    case (Suc k)
    show ?thesis
    proof (cases "a \<le> x")
      case True
      have "\<forall>z\<in>set (a # s). z \<le> x"
        using Cons.prems(1) True by auto
      then have "sum_list (take (Suc k) (a # s)) \<le> x + sum_list (take k (a # s))"
        using sum_take_Suc_le Cons.prems(2) by blast
      then show ?thesis using True Suc by simp
    next
      case False
      have "sum_list (take k s) \<le> sum_list (take k (insort_key uminus x s))"
        using Cons.IH Cons.prems by simp
      then show ?thesis using False Suc by simp
    qed
  qed
qed

lemma deckStrength_add_copy:
  assumes cp: "mset (poolCopies cs') = add_mset n (mset (poolCopies cs))"
    and wr: "0 \<le> winRateOr0 m n"
  shows "deckStrength m cs \<le> deckStrength m cs'"
proof -
  let ?es = "specEntries m cs" and ?es' = "specEntries m cs'"
  have "mset ?es' = image_mset (winRateOr0 m) (mset (poolCopies cs'))"
    by (simp add: specEntries_poolCopies)
  also have "\<dots> = add_mset (winRateOr0 m n) (mset ?es)"
    by (simp add: cp specEntries_poolCopies)
  finally have "mset ?es' = mset (winRateOr0 m n # ?es)" by simp
  then have "sort_key uminus ?es' = sort_key uminus (winRateOr0 m n # ?es)"
    by (rule sort_key_uminus_mset)
  then have e: "sort_key uminus ?es' = insort_key uminus (winRateOr0 m n) (sort_key uminus ?es)"
    by simp
  have "sorted (map uminus (sort_key uminus ?es))"
    by (rule sorted_sort_key)
  then show ?thesis
    unfolding deckStrength_sum_take e
    using wr by (rule take_insort_mono)
qed


lemma length_deckStrengthsOf:
  "length (deckStrengthsOf cur pool m) = length (getDecks cur)"
  by (simp add: deckStrengthsOf_map)









lemma poolCopies_append: "poolCopies (xs @ ys) = poolCopies xs @ poolCopies ys"
  by (simp add: poolCopies_def)

lemma poolCopies_Cons:
  "poolCopies (c # cs) = replicate (nat (sint (amount c))) (cardName c) @ poolCopies cs"
  by (simp add: poolCopies_def)

lemma sint_succ:
  fixes a :: go_int
  assumes "sint a < 2 ^ 63 - 1"
  shows "sint (a + 1) = sint a + 1"
proof -
  have lo: "- (2 ^ 63) \<le> sint a"
    using sint_ge [of a] by simp
  have "sint (a + 1) = signed_take_bit 63 (sint a + 1)"
    by (simp add: sint_word_ariths)
  also have "\<dots> = sint a + 1"
    using lo assms by (simp add: signed_take_bit_int_eq_self)
  finally show ?thesis .
qed

lemma mset_poolCopies_new_slot:
  "mset (poolCopies (pre @ \<lparr>amount = 1, cardName = n, slotCard = sc\<rparr> # post))
     = add_mset n (mset (poolCopies (pre @ post)))"
  by (simp add: poolCopies_append poolCopies_Cons)

lemma mset_poolCopies_increment:
  assumes "0 \<le> sint (amount c)" "sint (amount c) < 2 ^ 63 - 1"
  shows "mset (poolCopies (pre @ c\<lparr>amount := amount c + 1\<rparr> # post))
     = add_mset (cardName c) (mset (poolCopies (pre @ c # post)))"
proof -
  have "nat (sint (amount c + 1)) = Suc (nat (sint (amount c)))"
    using assms by (simp add: sint_succ nat_add_distrib)
  then show ?thesis
    by (simp add: poolCopies_append poolCopies_Cons)
qed

text \<open>
  C9. Let the card \<open>n\<close> have a win rate above 0 in the archetype's map. A pool that holds
  the same physical copies as another and one more copy of \<open>n\<close> has a raw strength at
  least as large. In particular this holds when the copy comes as a new slot of amount 1,
  and when the amount of a slot of \<open>n\<close> goes from a to a + 1 (for a non-negative amount
  below the largest 64-bit integer, where a + 1 does not wrap).
\<close>

theorem raw_strength_monotone_in_copies:
  assumes "strengthMap n = Some wr" and "0 < wr"
  shows "(mset (poolCopies cs') = add_mset n (mset (poolCopies cs))
            \<longrightarrow> deckStrength strengthMap cs \<le> deckStrength strengthMap cs')
    \<and> deckStrength strengthMap (pre @ post)
         \<le> deckStrength strengthMap (pre @ \<lparr>amount = 1, cardName = n, slotCard = sc\<rparr> # post)
    \<and> (cardName c = n \<longrightarrow> 0 \<le> sint (amount c) \<longrightarrow> sint (amount c) < 2 ^ 63 - 1
          \<longrightarrow> deckStrength strengthMap (pre @ c # post)
                \<le> deckStrength strengthMap (pre @ c\<lparr>amount := amount c + 1\<rparr> # post))"
proof -
  have wr: "0 \<le> winRateOr0 strengthMap n"
    using assms by (simp add: winRateOr0_def)
  show ?thesis
  proof (intro conjI impI)
    assume "mset (poolCopies cs') = add_mset n (mset (poolCopies cs))"
    then show "deckStrength strengthMap cs \<le> deckStrength strengthMap cs'"
      using wr by (rule deckStrength_add_copy)
  next
    show "deckStrength strengthMap (pre @ post)
         \<le> deckStrength strengthMap (pre @ \<lparr>amount = 1, cardName = n, slotCard = sc\<rparr> # post)"
      using mset_poolCopies_new_slot wr by (rule deckStrength_add_copy)
  next
    assume c: "cardName c = n" "0 \<le> sint (amount c)" "sint (amount c) < 2 ^ 63 - 1"
    have "mset (poolCopies (pre @ c\<lparr>amount := amount c + 1\<rparr> # post))
            = add_mset n (mset (poolCopies (pre @ c # post)))"
      using mset_poolCopies_increment [OF c(2,3)] c(1) by simp
    then show "deckStrength strengthMap (pre @ c # post)
                \<le> deckStrength strengthMap (pre @ c\<lparr>amount := amount c + 1\<rparr> # post)"
      using wr by (rule deckStrength_add_copy)
  qed
qed

text \<open>
  A second \<open>Opt\<close> raises the raw strength from 0.6875 to 1.375, and an \<open>Opt\<close> added to
  two \<open>Shock\<close> does not lower it.
\<close>

theorem raw_strength_monotone_in_copies_witness:
  "deckStrength [''Opt'' \<mapsto> 11 / 16] [\<lparr>amount = 1, cardName = ''Opt'', slotCard = None\<rparr>]
     \<le> deckStrength [''Opt'' \<mapsto> 11 / 16] [\<lparr>amount = 2, cardName = ''Opt'', slotCard = None\<rparr>]
   \<and> deckStrength [''Opt'' \<mapsto> 11 / 16] [\<lparr>amount = 2, cardName = ''Shock'', slotCard = None\<rparr>]
     \<le> deckStrength [''Opt'' \<mapsto> 11 / 16] [\<lparr>amount = 1, cardName = ''Opt'', slotCard = None\<rparr>,
           \<lparr>amount = 2, cardName = ''Shock'', slotCard = None\<rparr>]
   \<and> deckStrength [''Opt'' \<mapsto> 11 / 16] [\<lparr>amount = 1, cardName = ''Opt'', slotCard = None\<rparr>] = 11 / 16
   \<and> deckStrength [''Opt'' \<mapsto> 11 / 16] [\<lparr>amount = 2, cardName = ''Opt'', slotCard = None\<rparr>] = 11 / 8"
proof -
  let ?m = "[''Opt'' \<mapsto> (11 / 16 :: rat)]"
  let ?c = "\<lparr>amount = 1, cardName = ''Opt'', slotCard = None\<rparr>"
  let ?post = "[\<lparr>amount = 2, cardName = ''Shock'', slotCard = None\<rparr>]"
  have m: "?m ''Opt'' = Some (11 / 16)" by simp
  have p: "(0 :: rat) < 11 / 16" by simp
  note t = raw_strength_monotone_in_copies
    [where strengthMap = ?m and n = "''Opt''" and wr = "11 / 16" and pre = "[]", OF m p]
  have n: "cardName ?c = ''Opt''" by simp
  have lo: "0 \<le> sint (amount ?c)" by simp
  have hi: "sint (amount ?c) < 2 ^ 63 - 1" by simp
  have a: "deckStrength ?m ([] @ ?c # []) \<le> deckStrength ?m ([] @ ?c\<lparr>amount := amount ?c + 1\<rparr> # [])"
    by (rule t [THEN conjunct2, THEN conjunct2, THEN mp, THEN mp, THEN mp, OF n lo hi])
  have b: "deckStrength ?m ([] @ ?post) \<le> deckStrength ?m ([] @ ?c # ?post)"
    by (rule t [THEN conjunct2, THEN conjunct1])
  have v1: "deckStrength ?m [?c] = 11 / 16" by code_simp
  have v2: "deckStrength ?m [\<lparr>amount = 2, cardName = ''Opt'', slotCard = None\<rparr>] = 11 / 8"
    by code_simp
  show ?thesis
    using a b v1 v2 by simp
qed

lemma index_topDecks:
  assumes "i < 10"
  shows "index (topDecks (deckStrengthsOf cur pool m)) i
           = Ret (topDecks (deckStrengthsOf cur pool m) ! i)"
proof -
  have "i < length (deckStrengthsOf cur pool m)"
    using assms length_getDecks [of cur] by (simp add: length_deckStrengthsOf)
  then have "i < length (topDecks (deckStrengthsOf cur pool m))"
    by (simp add: length_topDecks)
  then show ?thesis
    by (rule index_Ret)
qed

lemma topDecks_nth_nonneg:
  assumes "i < length ds" and "0 \<le> sort_key uminus (map snd ds) ! i"
  shows "topDecks ds ! i = sort_key uminus (map snd ds) ! i"
  using topDecks_nth [OF assms(1)] assms(2) by simp

text \<open>
  C10. For every set code \<open>getDecks\<close> starts with the ten 2-colour archetypes, so
  \<open>deckStrengths\<close> has at least ten entries and \<open>v\<close>, which is made with that length
  before the values are appended, has twice as many, at least twenty. The reads of
  \<open>v[0]\<close>, \<open>v[1]\<close> and \<open>v[2]\<close> are in bounds and \<open>calculateStrength\<close> returns without a
  panic, for every pool and every map. A non-negative value among the three largest
  strengths keeps its place in spite of the zeros.
\<close>

theorem calculateStrength_indices_in_bounds:
  "prefix mtg2CDecks (getDecks setCode) \<and> length mtg2CDecks = 10
   \<and> length (deckStrengthsOf cur pool m) = length (getDecks cur)
   \<and> 10 \<le> length (deckStrengthsOf cur pool m)
   \<and> length (topDecks (deckStrengthsOf cur pool m)) = 2 * length (deckStrengthsOf cur pool m)
   \<and> 20 \<le> length (topDecks (deckStrengthsOf cur pool m))
   \<and> (\<forall>i<3. index (topDecks (deckStrengthsOf cur pool m)) i
                = Ret (topDecks (deckStrengthsOf cur pool m) ! i))
   \<and> calculateStrength cur pool m =
        Ret (truncToInt ((topDecks (deckStrengthsOf cur pool m) ! 0
                          + topDecks (deckStrengthsOf cur pool m) ! 1 * (8 / 10)
                          + topDecks (deckStrengthsOf cur pool m) ! 2 * (4 / 10)) * 100))
   \<and> (\<forall>i<3. 0 \<le> sort_key uminus (map snd (deckStrengthsOf cur pool m)) ! i \<longrightarrow>
          topDecks (deckStrengthsOf cur pool m) ! i
            = sort_key uminus (map snd (deckStrengthsOf cur pool m)) ! i)"
proof -
  let ?ds = "deckStrengthsOf cur pool m"
  have p: "prefix mtg2CDecks (getDecks setCode)"
    by (simp add: getDecks_def Let_def)
  have l2: "length mtg2CDecks = 10"
    by (simp add: mtg2CDecks_def)
  have l: "length ?ds = length (getDecks cur)"
    by (rule length_deckStrengthsOf)
  have l10: "10 \<le> length ?ds"
    using length_getDecks [of cur] l by simp
  have lt: "length (topDecks ?ds) = 2 * length ?ds"
    by (rule length_topDecks)
  have l20: "20 \<le> length (topDecks ?ds)"
    using l10 lt by simp
  have ix: "\<forall>i<3. index (topDecks ?ds) i = Ret (topDecks ?ds ! i)"
    by (simp add: index_topDecks)
  have cs: "calculateStrength cur pool m =
        Ret (truncToInt ((topDecks ?ds ! 0 + topDecks ?ds ! 1 * (8 / 10)
                          + topDecks ?ds ! 2 * (4 / 10)) * 100))"
    unfolding calculateStrength_def Let_def by (simp add: index_topDecks)
  have nd: "\<forall>i<3. 0 \<le> sort_key uminus (map snd ?ds) ! i \<longrightarrow>
          topDecks ?ds ! i = sort_key uminus (map snd ?ds) ! i"
    using l10 by (auto intro: topDecks_nth_nonneg)
  show ?thesis
    by (intro conjI p l2 l l10 lt l20 ix cs nd)
qed

text \<open>
  The example pool: \<open>v\<close> has twenty elements, \<open>v[0]\<close> is 0.6875 and \<open>v[2]\<close> is 0; with no
  performance data at all the score is 0.
\<close>

theorem calculateStrength_indices_in_bounds_witness:
  "length (topDecks (deckStrengthsOf ''HBG'' examplePool exampleMaps)) = 20
   \<and> index (topDecks (deckStrengthsOf ''HBG'' examplePool exampleMaps)) 2 = Ret 0
   \<and> topDecks (deckStrengthsOf ''HBG'' examplePool exampleMaps) ! 0 = 11 / 16
   \<and> calculateStrength ''HBG'' examplePool Map.empty = Ret 0"
proof -
  note t = calculateStrength_indices_in_bounds [of "''HBG''" "''HBG''" examplePool exampleMaps]
  have s: "sort_key uminus (map snd (deckStrengthsOf ''HBG'' examplePool exampleMaps))
             = [11 / 16, 0, 0, 0, 0, 0, 0, 0, 0, 0]"
    by code_simp
  have g: "length (getDecks ''HBG'') = 10"
    by code_simp
  have a: "length (topDecks (deckStrengthsOf ''HBG'' examplePool exampleMaps)) = 20"
    using t g by simp
  have i2: "index (topDecks (deckStrengthsOf ''HBG'' examplePool exampleMaps)) 2
              = Ret (topDecks (deckStrengthsOf ''HBG'' examplePool exampleMaps) ! 2)"
    using t by simp
  have n2: "topDecks (deckStrengthsOf ''HBG'' examplePool exampleMaps) ! 2 = 0"
    using t s by simp
  have n0: "topDecks (deckStrengthsOf ''HBG'' examplePool exampleMaps) ! 0 = 11 / 16"
    using t s by simp
  have e: "topDecks (deckStrengthsOf ''HBG'' examplePool Map.empty)
             = replicate 20 0"
    by code_simp
  have c: "calculateStrength ''HBG'' examplePool Map.empty = Ret 0"
    using calculateStrength_indices_in_bounds [of "''HBG''" "''HBG''" examplePool Map.empty]
    by (simp add: e truncToInt_def)
  show ?thesis
    using a i2 n2 n0 c by simp
qed

section \<open>Properties of the Resilient Fetcher\<close>

lemma getWebResponseString_unrolled:
  "getWebResponseString e u w =
     (case innerGetWebResponseString e u w of
        (Panic m, w1) \<Rightarrow> (Panic m, w1)
      | (Ret (r, None), w1) \<Rightarrow> (Ret (r, None), w1)
      | (Ret (r, Some e1), w1) \<Rightarrow>
          (case innerGetWebResponseString e u (sleep webRetryMs w1) of
             (Panic m, w2) \<Rightarrow> (Panic m, w2)
           | (Ret (r, None), w2) \<Rightarrow> (Ret (r, None), w2)
           | (Ret (r, Some e2), w2) \<Rightarrow>
               (case innerGetWebResponseString e u (sleep webRetryMs w2) of
                  (Panic m, w3) \<Rightarrow> (Panic m, w3)
                | (Ret (r, None), w3) \<Rightarrow> (Ret (r, None), w3)
                | (Ret (r, Some e3), w3) \<Rightarrow> (Ret ('''', Some e3), sleep webRetryMs w3))))"
  unfolding getWebResponseString_def
  apply (subst getWebResponseString_from.simps)
  apply (subst getWebResponseString_from.simps)
  apply (subst getWebResponseString_from.simps)
  apply (subst getWebResponseString_from.simps)
  apply (simp add: webRetires_def split: prod.splits outcome.splits option.splits)
  done

lemma inner_cases:
  "innerGetWebResponseString e u w =
     (case httpGet e (length (requests w)) u of
        TransportFailure m \<Rightarrow> (Panic m, w\<lparr>requests := requests w @ [u]\<rparr>)
      | Response statusCode b \<Rightarrow>
          if statusCode \<noteq> 200
          then (Ret ('''', Some (statusError statusCode u)), w\<lparr>requests := requests w @ [u]\<rparr>)
          else (case b of
                  ReadError m \<Rightarrow> (Panic m, w\<lparr>requests := requests w @ [u]\<rparr>)
                | Body s \<Rightarrow> (Ret (s, None), w\<lparr>requests := requests w @ [u]\<rparr>)))"
  by (simp add: innerGetWebResponseString_def Let_def)

lemma fetch_frame:
  assumes "getWebResponseString e u w = (res, w')"
  shows "db w' = db w \<and> dbWrites w' = dbWrites w"
  using assms unfolding getWebResponseString_unrolled inner_cases sleep_def
  by (auto split: response.splits body.splits if_splits)

lemma fetch_requests_cases:
  assumes "getWebResponseString e u w = (res, w')"
  shows "requests w' = requests w @ [u] \<or> requests w' = requests w @ [u, u]
    \<or> requests w' = requests w @ [u, u, u]"
  using assms unfolding getWebResponseString_unrolled inner_cases sleep_def
  by (auto split: response.splits body.splits if_splits)

lemma fetch_requests:
  assumes "getWebResponseString e u w = (res, w')"
  shows "\<exists>k. 1 \<le> k \<and> k \<le> webRetires \<and> requests w' = requests w @ replicate k u"
proof -
  consider "requests w' = requests w @ replicate 1 u"
    | "requests w' = requests w @ replicate 2 u"
    | "requests w' = requests w @ replicate 3 u"
    using fetch_requests_cases [OF assms]
    by (auto simp: numeral_2_eq_2 numeral_3_eq_3)
  then show ?thesis
  proof cases
    case 1
    then show ?thesis by (intro exI [of _ 1]) (simp add: webRetires_def)
  next
    case 2
    then show ?thesis by (intro exI [of _ 2]) (simp add: webRetires_def)
  next
    case 3
    then show ?thesis by (intro exI [of _ 3]) (simp add: webRetires_def)
  qed
qed

text \<open>
  C6, as stated: a transport failure is returned to the caller as an error, after the
  retries. When \<open>http.Get\<close> fails, \<open>checkError\<close> panics in the first attempt: there is no
  retry and no error value, the run aborts.
\<close>

theorem transport_failure_panics_counterexample:
  "fst (getWebResponseString (exampleEnv netDown) ''https://sealeddeck.tech/api/pools/x'' emptyWorld)
     = Panic ''dial tcp: i/o timeout''
   \<and> \<not> isError (fst (getWebResponseString (exampleEnv netDown)
                        ''https://sealeddeck.tech/api/pools/x'' emptyWorld))
   \<and> requests (snd (getWebResponseString (exampleEnv netDown)
                      ''https://sealeddeck.tech/api/pools/x'' emptyWorld))
       = [''https://sealeddeck.tech/api/pools/x'']"
  by code_simp

text \<open>
  C6, amended. \<open>getWebResponseString\<close> makes between one and three requests to the URI.
  Every attempt before the last one got a status other than 200, and each of them is
  followed by the same pause of \<open>webRetryMs\<close> = 500 ms. If it returns a body without error,
  the last attempt got status 200 and that body. If it returns an error, all three
  attempts got a status other than 200, the error is the one of the third, the result
  string is empty, and a third pause was taken. If the last attempt failed in transport or
  in reading the body, it panics instead of returning. The store is not touched.
\<close>

theorem getWebResponseString_retries:
  assumes "getWebResponseString e u w = (res, w')"
  shows "\<exists>k. 1 \<le> k \<and> k \<le> webRetires \<and> requests w' = requests w @ replicate k u
          \<and> (\<forall>i<k - 1. nonSuccess (httpGet e (length (requests w) + i) u))
          \<and> (case res of
               Ret (s, None) \<Rightarrow>
                 httpGet e (length (requests w) + (k - 1)) u = Response 200 (Body s)
                 \<and> sleeps w' = sleeps w @ replicate (k - 1) webRetryMs
             | Ret (s, Some m) \<Rightarrow>
                 k = webRetires \<and> s = ''''
                 \<and> (\<exists>c b. httpGet e (length (requests w) + (k - 1)) u = Response c b
                           \<and> c \<noteq> 200 \<and> m = statusError c u)
                 \<and> sleeps w' = sleeps w @ replicate k webRetryMs
             | Panic m \<Rightarrow>
                 (httpGet e (length (requests w) + (k - 1)) u = TransportFailure m
                  \<or> httpGet e (length (requests w) + (k - 1)) u = Response 200 (ReadError m))
                 \<and> sleeps w' = sleeps w @ replicate (k - 1) webRetryMs)
          \<and> db w' = db w \<and> dbWrites w' = dbWrites w"
proof -
  let ?r = "\<lambda>i. httpGet e (length (requests w) + i) u"
  note eq = assms [unfolded getWebResponseString_unrolled inner_cases sleep_def]
  consider (one) "\<not> nonSuccess (?r 0)"
    | (two) "nonSuccess (?r 0)" "\<not> nonSuccess (?r 1)"
    | (three) "nonSuccess (?r 0)" "nonSuccess (?r 1)" "\<not> nonSuccess (?r 2)"
    | (all) "nonSuccess (?r 0)" "nonSuccess (?r 1)" "nonSuccess (?r 2)"
    by blast
  then show ?thesis
  proof cases
    case one
    show ?thesis
      apply (rule exI [of _ 1])
      using eq one
      by (auto simp: nonSuccess_def webRetires_def split: response.splits body.splits if_splits)
  next
    case two
    show ?thesis
      apply (rule exI [of _ 2])
      using eq two
      by (auto simp: nonSuccess_def webRetires_def numeral_2_eq_2
          split: response.splits body.splits if_splits)
  next
    case three
    show ?thesis
      apply (rule exI [of _ 3])
      using eq three
      by (auto simp: nonSuccess_def webRetires_def numeral_3_eq_3 less_Suc_eq
          split: response.splits body.splits if_splits)
  next
    case all
    show ?thesis
      apply (rule exI [of _ 3])
      using eq all
      by (auto simp: nonSuccess_def webRetires_def numeral_3_eq_3 less_Suc_eq
          split: response.splits body.splits if_splits)
  qed
qed

text \<open>
  A network that answers 503 and then 200 gives the body after two requests and one
  pause of 500 ms; one that always answers 503 gives the third error after three requests
  and three pauses.
\<close>

theorem getWebResponseString_retries_witness:
  "fst (getWebResponseString (exampleEnv netBusyOnce) ''u'' emptyWorld) = Ret (''{}'', None)
   \<and> requests (snd (getWebResponseString (exampleEnv netBusyOnce) ''u'' emptyWorld)) = [''u'', ''u'']
   \<and> sleeps (snd (getWebResponseString (exampleEnv netBusyOnce) ''u'' emptyWorld)) = [500]
   \<and> (\<exists>k. 1 \<le> k \<and> k \<le> webRetires
          \<and> requests (snd (getWebResponseString (exampleEnv netBusyOnce) ''u'' emptyWorld))
               = requests emptyWorld @ replicate k ''u''
          \<and> httpGet (exampleEnv netBusyOnce) (length (requests emptyWorld) + (k - 1)) ''u''
               = Response 200 (Body ''{}''))
   \<and> fst (getWebResponseString (exampleEnv netBusy) ''u'' emptyWorld)
       = Ret ('''', Some ''An error with code 503 was throw trying to get a response from: u'')
   \<and> requests (snd (getWebResponseString (exampleEnv netBusy) ''u'' emptyWorld))
       = [''u'', ''u'', ''u'']
   \<and> sleeps (snd (getWebResponseString (exampleEnv netBusy) ''u'' emptyWorld)) = [500, 500, 500]"
proof -
  let ?g = "getWebResponseString (exampleEnv netBusyOnce) ''u'' emptyWorld"
  have ev: "fst ?g = Ret (''{}'', None) \<and> requests (snd ?g) = [''u'', ''u'']
      \<and> sleeps (snd ?g) = [500]"
    by code_simp
  have ev2: "fst (getWebResponseString (exampleEnv netBusy) ''u'' emptyWorld)
       = Ret ('''', Some ''An error with code 503 was throw trying to get a response from: u'')
   \<and> requests (snd (getWebResponseString (exampleEnv netBusy) ''u'' emptyWorld))
       = [''u'', ''u'', ''u'']
   \<and> sleeps (snd (getWebResponseString (exampleEnv netBusy) ''u'' emptyWorld)) = [500, 500, 500]"
    by code_simp
  have h: "?g = (Ret (''{}'', None), snd ?g)"
    using ev by (metis prod.collapse)
  have "\<exists>k. 1 \<le> k \<and> k \<le> webRetires
          \<and> requests (snd ?g) = requests emptyWorld @ replicate k ''u''
          \<and> httpGet (exampleEnv netBusyOnce) (length (requests emptyWorld) + (k - 1)) ''u''
               = Response 200 (Body ''{}'')"
    using getWebResponseString_retries [OF h] by auto
  then show ?thesis
    using ev ev2 by blast
qed

section \<open>Properties of the Card Resolver\<close>

lemma scryfallGet_cases:
  "scryfallGet e name w =
     (case getWebResponseString e
             (scryfallCardUri (queryEscape e name) @ scryfallSetClause (queryEscape e (curSet e))) w of
        (Panic m, w1) \<Rightarrow> (Panic m, w1)
      | (Ret (p, None), w1) \<Rightarrow> (Ret (p, None), sleep scryfallPauseMs w1)
      | (Ret (p, Some err), w1) \<Rightarrow>
          (case getWebResponseString e (scryfallCardUri (queryEscape e name)) w1 of
             (Panic m, w2) \<Rightarrow> (Panic m, w2)
           | (Ret (p', err'), w2) \<Rightarrow> (Ret (p', err'), sleep scryfallPauseMs w2)))"
proof -
  let ?g = "getWebResponseString e
             (scryfallCardUri (queryEscape e name) @ scryfallSetClause (queryEscape e (curSet e))) w"
  obtain r1 w1 where g: "?g = (r1, w1)"
    by (cases ?g)
  show ?thesis
  proof (cases r1)
    case (Panic m)
    then show ?thesis
      by (simp add: scryfallGet_def Let_def g)
  next
    case (Ret pr)
    obtain p err where pr: "pr = (p, err)"
      by (cases pr)
    show ?thesis
    proof (cases err)
      case None
      then show ?thesis
        by (simp add: scryfallGet_def Let_def g Ret pr)
    next
      case (Some a)
      then show ?thesis
        by (simp add: scryfallGet_def Let_def g Ret pr)
    qed
  qed
qed

lemma scryfallGet_frame:
  assumes "scryfallGet e name w = (res, w')"
  shows "db w' = db w \<and> dbWrites w' = dbWrites w
    \<and> (\<exists>k1 k2. 1 \<le> k1 \<and> k1 \<le> webRetires \<and> k2 \<le> webRetires
          \<and> requests w' = requests w
               @ replicate k1 (scryfallCardUri (queryEscape e name)
                                 @ scryfallSetClause (queryEscape e (curSet e)))
               @ replicate k2 (scryfallCardUri (queryEscape e name))
          \<and> ((0 < k2) = isError (fst (getWebResponseString e
                 (scryfallCardUri (queryEscape e name)
                    @ scryfallSetClause (queryEscape e (curSet e))) w))))"
proof -
  let ?setUri = "scryfallCardUri (queryEscape e name) @ scryfallSetClause (queryEscape e (curSet e))"
  let ?baseUri = "scryfallCardUri (queryEscape e name)"
  obtain r1 w1 where g1: "getWebResponseString e ?setUri w = (r1, w1)"
    by (cases "getWebResponseString e ?setUri w")
  obtain k1 where k1: "1 \<le> k1" "k1 \<le> webRetires" "requests w1 = requests w @ replicate k1 ?setUri"
    using fetch_requests [OF g1] by blast
  have f1: "db w1 = db w" "dbWrites w1 = dbWrites w"
    using fetch_frame [OF g1] by simp_all
  show ?thesis
  proof (cases "isError r1")
    case False
    then have "w' = w1 \<or> w' = sleep scryfallPauseMs w1"
      using assms g1 unfolding scryfallGet_cases
      by (auto simp: isError_def split: outcome.splits option.splits prod.splits)
    then have fr: "db w' = db w \<and> dbWrites w' = dbWrites w
        \<and> requests w' = requests w @ replicate k1 ?setUri @ replicate 0 ?baseUri"
      using f1 k1 by (auto simp: sleep_def)
    have ne: "\<not> isError (fst (getWebResponseString e ?setUri w))"
      using False g1 by simp
    show ?thesis
      by (intro conjI exI [of _ k1] exI [of _ 0]) (use fr ne k1 in simp_all)
  next
    case True
    obtain r2 w2 where g2: "getWebResponseString e ?baseUri w1 = (r2, w2)"
      by (cases "getWebResponseString e ?baseUri w1")
    obtain k2 where k2: "1 \<le> k2" "k2 \<le> webRetires"
      "requests w2 = requests w1 @ replicate k2 ?baseUri"
      using fetch_requests [OF g2] by blast
    have f2: "db w2 = db w1" "dbWrites w2 = dbWrites w1"
      using fetch_frame [OF g2] by simp_all
    have "w' = w2 \<or> w' = sleep scryfallPauseMs w2"
      using assms g1 g2 True unfolding scryfallGet_cases
      by (auto simp: isError_def split: outcome.splits option.splits prod.splits)
    then have fr: "db w' = db w \<and> dbWrites w' = dbWrites w
        \<and> requests w' = requests w @ replicate k1 ?setUri @ replicate k2 ?baseUri"
      using f1 f2 k1 k2 by (auto simp: sleep_def)
    have er: "isError (fst (getWebResponseString e ?setUri w))"
      using True g1 by simp
    show ?thesis
      by (intro conjI exI [of _ k1] exI [of _ k2]) (use fr er k1 k2 in simp_all)
  qed
qed

lemma getCard_hit:
  assumes "db w (normalizeCardName name) = Some payload"
  shows "getCard e name w = (Ret (parseCard e payload, None), w)"
  using assms by (simp add: getCard_def dbGet_def Let_def)

lemma getCard_miss:
  assumes "db w (normalizeCardName name) = None"
    and "scryfallGet e (normalizeCardName name) w = (r, w1)"
  shows "getCard e name w =
     (case r of
        Panic m \<Rightarrow> (Panic m, w1)
      | Ret (j, Some err) \<Rightarrow>
          (Ret (emptyCard, Some (''Could not find card in db or in scryfall: ''
                                   @ normalizeCardName name)), w1)
      | Ret (j, None) \<Rightarrow>
          (case dbSetError e (normalizeCardName name) j of
             Some m \<Rightarrow> (Panic m, w1)
           | None \<Rightarrow>
               (Ret (parseCard e j, None),
                w1\<lparr>db := (db w1)(normalizeCardName name \<mapsto> j),
                    dbWrites := dbWrites w1 @ [(normalizeCardName name, j)]\<rparr>)))"
  using assms
  by (simp add: getCard_def dbGet_def dbSet_def Let_def
      split: outcome.splits option.splits prod.splits)

lemma scryfallGet_success:
  assumes "scryfallGet e name w = (Ret (j, None), w1)"
  shows "fst (getWebResponseString e
            (scryfallCardUri (queryEscape e name) @ scryfallSetClause (queryEscape e (curSet e))) w)
           = Ret (j, None)
    \<or> (isError (fst (getWebResponseString e
            (scryfallCardUri (queryEscape e name) @ scryfallSetClause (queryEscape e (curSet e))) w))
        \<and> fst (getWebResponseString e (scryfallCardUri (queryEscape e name))
              (snd (getWebResponseString e
                 (scryfallCardUri (queryEscape e name)
                    @ scryfallSetClause (queryEscape e (curSet e))) w)))
             = Ret (j, None))"
  using assms unfolding scryfallGet_cases
  by (auto simp: isError_def split: outcome.splits option.splits prod.splits)

text \<open>
  C4. Let \<open>getCard\<close> return \<open>res\<close> and the world \<open>w'\<close>, and let the key be the normalised
  name. If the store holds a payload under the key, the result is the parsed payload and
  the world is unchanged: no request, no write. If it does not, the requests made are
  one to three to the set-scoped URI followed by at most three to the unscoped URI, the
  latter exactly when the set-scoped lookup returned an error; on success the payload of the
  lookup that succeeded is written once to the store, under the key, and parsed; without
  success the store is not written. After a success, resolving the same name again returns
  the same card and leaves the world as it is.
\<close>

theorem getCard_cache_aside:
  assumes g: "getCard e name w = (res, w')"
  shows "(\<forall>payload. db w (normalizeCardName name) = Some payload
            \<longrightarrow> res = Ret (parseCard e payload, None) \<and> w' = w)
    \<and> (db w (normalizeCardName name) = None \<longrightarrow>
         (\<exists>k1 k2. 1 \<le> k1 \<and> k1 \<le> webRetires \<and> k2 \<le> webRetires
            \<and> requests w' = requests w
                 @ replicate k1 (cardSetUri e (normalizeCardName name))
                 @ replicate k2 (cardBaseUri e (normalizeCardName name))
            \<and> ((0 < k2) = isError (fst (getWebResponseString e
                                 (cardSetUri e (normalizeCardName name)) w))))
         \<and> (\<forall>c. res = Ret (c, None) \<longrightarrow>
              (\<exists>p. c = parseCard e p
                 \<and> db w' = (db w)(normalizeCardName name \<mapsto> p)
                 \<and> dbWrites w' = dbWrites w @ [(normalizeCardName name, p)]
                 \<and> (fst (getWebResponseString e (cardSetUri e (normalizeCardName name)) w)
                        = Ret (p, None)
                     \<or> (isError (fst (getWebResponseString e
                                        (cardSetUri e (normalizeCardName name)) w))
                         \<and> fst (getWebResponseString e (cardBaseUri e (normalizeCardName name))
                                 (snd (getWebResponseString e
                                         (cardSetUri e (normalizeCardName name)) w)))
                             = Ret (p, None)))))
         \<and> ((\<forall>c. res \<noteq> Ret (c, None)) \<longrightarrow> db w' = db w \<and> dbWrites w' = dbWrites w))
    \<and> (\<forall>c. res = Ret (c, None) \<longrightarrow> getCard e name w' = (Ret (c, None), w'))"
proof (cases "db w (normalizeCardName name)")
  case (Some payload)
  have "res = Ret (parseCard e payload, None)" and "w' = w"
    using g getCard_hit [OF Some, of e] by simp_all
  then show ?thesis
    using Some getCard_hit [OF Some, of e] by simp
next
  case None
  let ?key = "normalizeCardName name"
  obtain r w1 where s: "scryfallGet e ?key w = (r, w1)"
    by (cases "scryfallGet e ?key w")
  note fr = scryfallGet_frame [OF s, folded cardBaseUri_def, folded cardSetUri_def]
  note eq = g [unfolded getCard_miss [OF None s]]
  have req: "requests w' = requests w1"
    using eq by (auto split: outcome.splits option.splits prod.splits)
  have a: "\<exists>k1 k2. 1 \<le> k1 \<and> k1 \<le> webRetires \<and> k2 \<le> webRetires
            \<and> requests w' = requests w
                 @ replicate k1 (cardSetUri e ?key) @ replicate k2 (cardBaseUri e ?key)
            \<and> ((0 < k2) = isError (fst (getWebResponseString e (cardSetUri e ?key) w)))"
    using fr req by simp
  have b: "\<exists>p. c = parseCard e p
                 \<and> db w' = (db w)(?key \<mapsto> p)
                 \<and> dbWrites w' = dbWrites w @ [(?key, p)]
                 \<and> (fst (getWebResponseString e (cardSetUri e ?key) w) = Ret (p, None)
                     \<or> (isError (fst (getWebResponseString e (cardSetUri e ?key) w))
                         \<and> fst (getWebResponseString e (cardBaseUri e ?key)
                                 (snd (getWebResponseString e (cardSetUri e ?key) w)))
                             = Ret (p, None)))"
    if c: "res = Ret (c, None)" for c
  proof -
    obtain p where p: "r = Ret (p, None)" "dbSetError e ?key p = None" "c = parseCard e p"
      "w' = w1\<lparr>db := (db w1)(?key \<mapsto> p), dbWrites := dbWrites w1 @ [(?key, p)]\<rparr>"
      using eq c by (auto split: outcome.splits option.splits prod.splits)
    have "scryfallGet e ?key w = (Ret (p, None), w1)"
      using s p(1) by simp
    note scryfallGet_success [OF this, folded cardBaseUri_def, folded cardSetUri_def]
    then show ?thesis
      using p fr by auto
  qed
  have c: "db w' = db w \<and> dbWrites w' = dbWrites w" if "\<forall>c. res \<noteq> Ret (c, None)"
    using eq that fr by (auto split: outcome.splits option.splits prod.splits)
  have d: "getCard e name w' = (Ret (c, None), w')" if c: "res = Ret (c, None)" for c
  proof -
    obtain p where "c = parseCard e p" "db w' = (db w)(?key \<mapsto> p)"
      using b [OF c] by blast
    then show ?thesis
      using getCard_hit [of w' name p e] by simp
  qed
  show ?thesis
    using None a b c d by simp
qed

text \<open>
  \<open>Opt\<close> is unknown with the set filter and known without: three requests with the
  filter, one without, one write, and the second resolution changes nothing.
\<close>

theorem getCard_cache_aside_witness:
  "fst (getCard (exampleEnv netUnscopedOnly) ''Opt'' emptyWorld)
     = Ret (emptyCard\<lparr>Name := ''{}''\<rparr>, None)
   \<and> requests (snd (getCard (exampleEnv netUnscopedOnly) ''Opt'' emptyWorld))
      = [''https://api.scryfall.com/cards/named?exact=Opt&set=HBG'',
         ''https://api.scryfall.com/cards/named?exact=Opt&set=HBG'',
         ''https://api.scryfall.com/cards/named?exact=Opt&set=HBG'',
         ''https://api.scryfall.com/cards/named?exact=Opt'']
   \<and> dbWrites (snd (getCard (exampleEnv netUnscopedOnly) ''Opt'' emptyWorld)) = [(''Opt'', ''{}'')]
   \<and> getCard (exampleEnv netUnscopedOnly) ''Opt''
        (snd (getCard (exampleEnv netUnscopedOnly) ''Opt'' emptyWorld))
      = (Ret (emptyCard\<lparr>Name := ''{}''\<rparr>, None),
         snd (getCard (exampleEnv netUnscopedOnly) ''Opt'' emptyWorld))"
proof -
  let ?g = "getCard (exampleEnv netUnscopedOnly) ''Opt'' emptyWorld"
  have ev: "fst ?g = Ret (emptyCard\<lparr>Name := ''{}''\<rparr>, None)
    \<and> requests (snd ?g)
      = [''https://api.scryfall.com/cards/named?exact=Opt&set=HBG'',
         ''https://api.scryfall.com/cards/named?exact=Opt&set=HBG'',
         ''https://api.scryfall.com/cards/named?exact=Opt&set=HBG'',
         ''https://api.scryfall.com/cards/named?exact=Opt'']
    \<and> dbWrites (snd ?g) = [(''Opt'', ''{}'')]"
    by code_simp
  have h: "?g = (Ret (emptyCard\<lparr>Name := ''{}''\<rparr>, None), snd ?g)"
    using ev by (metis prod.collapse)
  have "getCard (exampleEnv netUnscopedOnly) ''Opt'' (snd ?g)
      = (Ret (emptyCard\<lparr>Name := ''{}''\<rparr>, None), snd ?g)"
    using getCard_cache_aside [OF h, THEN conjunct2, THEN conjunct2] by blast
  then show ?thesis
    using ev by blast
qed

section \<open>Properties of the Performance Resolver's cache key\<close>

lemma seventeenLandsGet_frame:
  assumes "seventeenLandsGet e setCode deckId w = (res, w')"
  shows "db w' = db w \<and> dbWrites w' = dbWrites w"
proof -
  let ?u = "seventeenLandsUri setCode setPerformanceFormat
              (case today e of (y, mo, d) \<Rightarrow> fmt_d y @ ''-'' @ fmt_d mo @ ''-'' @ fmt_d d) deckId"
  obtain r1 w1 where g: "getWebResponseString e ?u w = (r1, w1)"
    by (cases "getWebResponseString e ?u w")
  have "w' = w1 \<or> w' = sleep seventeenLandsPauseMs w1"
    using assms g
    by (auto simp: seventeenLandsGet_def Let_def split: outcome.splits prod.splits)
  then show ?thesis
    using fetch_frame [OF g] by (auto simp: sleep_def)
qed

lemma perfDbKey_eq:
  "perfDbKey cur now setCode deckId =
     ''17lands_'' @ setCode @ ''_'' @ deckId
       @ (if setCode = cur
          then ''_'' @ fmt_d (fst now) @ ''_'' @ fmt_d (fst (snd now)) @ ''_'' @ fmt_d (snd (snd now))
          else '''')"
  by (cases now) (simp add: perfDbKey_def Let_def)

lemma getCardPerformanceData_hit:
  assumes "db w (perfDbKey (curSet e) (today e) setCode deckId) = Some rawJson"
    and "trimSpace e rawJson \<noteq> ''''"
  shows "getCardPerformanceData e setCode deckId False w = (Ret (parsePerf e rawJson, None), w)"
  using assms by (simp add: getCardPerformanceData_def dbGet_def Let_def)

lemma getCardPerformanceData_stores:
  assumes g: "getCardPerformanceData e setCode deckId force w = (Ret (cp, None), w')"
  shows "(\<exists>rawJson. db w' (perfDbKey (curSet e) (today e) setCode deckId) = Some rawJson
            \<and> cp = parsePerf e rawJson)
    \<and> (\<forall>k. k \<noteq> perfDbKey (curSet e) (today e) setCode deckId \<longrightarrow> db w' k = db w k)"
proof -
  let ?key = "perfDbKey (curSet e) (today e) setCode deckId"
  obtain r w1 where s: "seventeenLandsGet e setCode deckId w = (r, w1)"
    by (cases "seventeenLandsGet e setCode deckId w")
  have f: "db w1 = db w"
    using seventeenLandsGet_frame [OF s] by simp
  show ?thesis
    using g s f
    by (auto simp: getCardPerformanceData_def dbGet_def dbSet_def Let_def
        split: outcome.splits option.splits prod.splits if_splits)
qed

text \<open>
  C3, as stated: the key starts with \<open>perf_\<close>. The key built by
  \<open>getCardPerformanceData\<close> starts with \<open>17lands_\<close>.
\<close>

theorem perf_cache_key_prefix_counterexample:
  "perfDbKey currentSet (2022, 7, 9) ''DOM'' ''WU'' = ''17lands_DOM_WU''
   \<and> perfDbKey currentSet (2022, 7, 9) ''DOM'' ''WU'' \<noteq> ''perf_'' @ ''DOM'' @ ''_'' @ ''WU''
   \<and> perfDbKey currentSet (2022, 7, 9) ''HBG'' ''WU'' = ''17lands_HBG_WU_2022_7_9''
   \<and> perfDbKey currentSet (2022, 7, 9) ''HBG'' ''WU''
       \<noteq> ''perf_'' @ ''HBG'' @ ''_'' @ ''WU'' @ ''_2022_7_9''"
  by code_simp

text \<open>
  C3, amended. The key is \<open>17lands_\<close> + set + \<open>_\<close> + archetype, followed by \<open>_\<close> year
  \<open>_\<close> month \<open>_\<close> day of today if and only if the set is the current set. It is a function
  of the current set, the date, the set and the archetype, so two calls on the same day
  for the same archetype use the same key; for another set than the current one the key
  has no date and is the same on every day. \<open>getCardPerformanceData\<close> reads the store at
  this key (a non-blank payload there is parsed and returned without any request) and,
  whenever it succeeds, the payload it parsed is in the store under this key and no other
  key has changed.
\<close>

theorem perf_cache_key:
  "perfDbKey cur now setCode deckId =
     ''17lands_'' @ setCode @ ''_'' @ deckId
       @ (if setCode = cur
          then ''_'' @ fmt_d (fst now) @ ''_'' @ fmt_d (fst (snd now)) @ ''_'' @ fmt_d (snd (snd now))
          else '''')
   \<and> perfDbKey cur now cur deckId \<noteq> ''17lands_'' @ cur @ ''_'' @ deckId
   \<and> (setCode \<noteq> cur \<longrightarrow>
        perfDbKey cur now setCode deckId = ''17lands_'' @ setCode @ ''_'' @ deckId
        \<and> perfDbKey cur now' setCode deckId = perfDbKey cur now setCode deckId)
   \<and> (\<forall>rawJson. db w (perfDbKey (curSet e) (today e) setCode deckId) = Some rawJson
          \<longrightarrow> trimSpace e rawJson \<noteq> ''''
          \<longrightarrow> getCardPerformanceData e setCode deckId False w
                = (Ret (parsePerf e rawJson, None), w))
   \<and> (\<forall>cp w'. getCardPerformanceData e setCode deckId force w = (Ret (cp, None), w')
          \<longrightarrow> (\<exists>rawJson. db w' (perfDbKey (curSet e) (today e) setCode deckId) = Some rawJson
                  \<and> cp = parsePerf e rawJson)
              \<and> (\<forall>k. k \<noteq> perfDbKey (curSet e) (today e) setCode deckId \<longrightarrow> db w' k = db w k))"
proof (intro conjI allI impI)
  show "perfDbKey cur now setCode deckId =
     ''17lands_'' @ setCode @ ''_'' @ deckId
       @ (if setCode = cur
          then ''_'' @ fmt_d (fst now) @ ''_'' @ fmt_d (fst (snd now)) @ ''_'' @ fmt_d (snd (snd now))
          else '''')"
    by (rule perfDbKey_eq)
  show "perfDbKey cur now cur deckId \<noteq> ''17lands_'' @ cur @ ''_'' @ deckId"
    by (simp add: perfDbKey_eq)
next
  assume "setCode \<noteq> cur"
  then show "perfDbKey cur now setCode deckId = ''17lands_'' @ setCode @ ''_'' @ deckId"
    and "perfDbKey cur now' setCode deckId = perfDbKey cur now setCode deckId"
    by (simp_all add: perfDbKey_eq)
next
  fix rawJson
  assume "db w (perfDbKey (curSet e) (today e) setCode deckId) = Some rawJson"
    and "trimSpace e rawJson \<noteq> ''''"
  then show "getCardPerformanceData e setCode deckId False w = (Ret (parsePerf e rawJson, None), w)"
    by (rule getCardPerformanceData_hit)
next
  fix cp w'
  assume g: "getCardPerformanceData e setCode deckId force w = (Ret (cp, None), w')"
  show "\<exists>rawJson. db w' (perfDbKey (curSet e) (today e) setCode deckId) = Some rawJson
          \<and> cp = parsePerf e rawJson"
    using getCardPerformanceData_stores [OF g] by blast
  fix k
  assume "k \<noteq> perfDbKey (curSet e) (today e) setCode deckId"
  then show "db w' k = db w k"
    using getCardPerformanceData_stores [OF g] by blast
qed

text \<open>
  For the set \<open>DOM\<close>, which is not the current set, the key is \<open>17lands_DOM_WU\<close> in 2022
  and in 2023, and a payload stored under it is served with the network down.
\<close>

theorem perf_cache_key_witness:
  "perfDbKey currentSet (2023, 1, 1) ''DOM'' ''WU'' = perfDbKey currentSet (2022, 7, 9) ''DOM'' ''WU''
   \<and> perfDbKey currentSet (2022, 7, 9) ''DOM'' ''WU'' = ''17lands_DOM_WU''
   \<and> getCardPerformanceData (exampleEnv netDown) ''DOM'' ''WU'' False
        (emptyWorld\<lparr>db := [''17lands_DOM_WU'' \<mapsto> ''[]'']\<rparr>)
      = (Ret ([], None), emptyWorld\<lparr>db := [''17lands_DOM_WU'' \<mapsto> ''[]'']\<rparr>)"
proof -
  let ?e = "exampleEnv netDown"
  let ?w = "emptyWorld\<lparr>db := [''17lands_DOM_WU'' \<mapsto> ''[]'']\<rparr>"
  have ne: "''DOM'' \<noteq> currentSet"
    by (simp add: currentSet_def)
  note t = perf_cache_key [of currentSet "(2022, 7, 9)" "''DOM''" "''WU''" "(2023, 1, 1)" ?w ?e False]
  have k: "perfDbKey currentSet (2022, 7, 9) ''DOM'' ''WU'' = ''17lands_DOM_WU''"
    and k': "perfDbKey currentSet (2023, 1, 1) ''DOM'' ''WU''
               = perfDbKey currentSet (2022, 7, 9) ''DOM'' ''WU''"
    using t [THEN conjunct2, THEN conjunct2, THEN conjunct1, THEN mp, OF ne] by simp_all
  have cs: "curSet ?e = currentSet" and td: "today ?e = (2022, 7, 9)"
    by (simp_all add: exampleEnv_def)
  have hit: "db ?w (perfDbKey (curSet ?e) (today ?e) ''DOM'' ''WU'') = Some ''[]''"
    by (simp add: cs td k)
  have nb: "trimSpace ?e ''[]'' \<noteq> ''''"
    by (simp add: exampleEnv_def)
  have pp: "parsePerf ?e ''[]'' = []"
    by (simp add: exampleEnv_def)
  have "getCardPerformanceData ?e ''DOM'' ''WU'' False ?w = (Ret (parsePerf ?e ''[]'', None), ?w)"
    using t [THEN conjunct2, THEN conjunct2, THEN conjunct2, THEN conjunct1, THEN spec,
             THEN mp, THEN mp, OF hit nb] .
  then show ?thesis
    using k k' pp by simp
qed

end
